theory Spec2Isabelle
  imports Complex_Main
begin

section \<open>Errors and values of the Python program\<close>

text \<open>
  Every exception the modelled functions can raise is a value of \<open>error\<close>. An
  \<^verbatim>\<open>assert\<close> carries its message (the empty string when the source gives none),
  so that the assertion that fired can be told apart. A function that can raise returns
  \<open>error + 'a\<close>; \<open>bind_err\<close> runs the rest of the body after a call that returned.
\<close>

datatype error =
    AssertionError string
  | ValueError string
  | IndexError
  | KeyError
  | RuntimeError string
  | ZeroDivisionError
  | TypeError

datatype pyval = PyNone | PyInt int

fun bind_err :: "error + 'a \<Rightarrow> ('a \<Rightarrow> error + 'b) \<Rightarrow> error + 'b" where
  "bind_err (Inl er) f = Inl er"
| "bind_err (Inr x) f = f x"

text \<open>A comprehension over a list raises at the first element whose body raises.\<close>

fun collect :: "('a \<Rightarrow> error + 'b) \<Rightarrow> 'a list \<Rightarrow> error + 'b list" where
  "collect f [] = Inr []"
| "collect f (x # xs) =
     bind_err (f x) (\<lambda>y. bind_err (collect f xs) (\<lambda>ys. Inr (y # ys)))"

section \<open>Tensors\<close>

text \<open>
  A tensor is its shape and its elements in row-major order; \<open>tensor_ok\<close> says that
  the two agree. The element type is a parameter, so no property below depends on
  floating-point arithmetic. \<open>block m i xs\<close> is the \<open>i\<close>-th run of \<open>m\<close> elements.
\<close>

record 'a tensor =
  shape :: "nat list"
  elems :: "'a list"

definition tensor_ok :: "'a tensor \<Rightarrow> bool" where
  "tensor_ok t = (length (elems t) = prod_list (shape t))"

definition numel :: "'a tensor \<Rightarrow> nat" where
  "numel t = prod_list (shape t)"

definition block :: "nat \<Rightarrow> nat \<Rightarrow> 'a list \<Rightarrow> 'a list" where
  "block m i xs = take m (drop (i * m) xs)"

text \<open>\<^verbatim>\<open>t.shape[i]\<close>, and \<^verbatim>\<open>t[i]\<close> on the first axis.\<close>

definition shape_at :: "'a tensor \<Rightarrow> nat \<Rightarrow> error + nat" where
  "shape_at t i = (if i < length (shape t) then Inr (shape t ! i) else Inl IndexError)"

definition index0 :: "'a tensor \<Rightarrow> nat \<Rightarrow> error + 'a tensor" where
  "index0 t i =
     (case shape t of
        [] \<Rightarrow> Inl IndexError
      | n # s \<Rightarrow> if i < n then Inr \<lparr>shape = s, elems = block (prod_list s) i (elems t)\<rparr>
                 else Inl IndexError)"

text \<open>
  \<^verbatim>\<open>torch.stack\<close> needs a non-empty list of tensors of one shape, and puts a new
  first axis in front.
\<close>

definition torch_stack :: "'a tensor list \<Rightarrow> error + 'a tensor" where
  "torch_stack ts =
     (case ts of
        [] \<Rightarrow> Inl (RuntimeError ''stack expects a non-empty TensorList'')
      | t # us \<Rightarrow>
          if list_all (\<lambda>u. shape u = shape t) us
          then Inr \<lparr>shape = length ts # shape t, elems = concat (map elems ts)\<rparr>
          else Inl (RuntimeError ''stack expects each tensor to be equal size''))"

text \<open>\<^verbatim>\<open>t.permute([1, 0, 2, 3, 4])\<close>: a five-dimensional tensor with its first two axes swapped.\<close>

definition permute_10234 :: "'a tensor \<Rightarrow> error + 'a tensor" where
  "permute_10234 t =
     (case shape t of
        [a, b, c, d, e] \<Rightarrow>
          Inr \<lparr>shape = [b, a, c, d, e],
               elems = concat (map (\<lambda>j. concat (map (\<lambda>i. block (c * d * e) (i * b + j) (elems t))
                                                     [0..<a])) [0..<b])\<rparr>
      | _ \<Rightarrow> Inl (RuntimeError ''permute: number of dims does not match''))"

definition torch_unbind0 :: "'a tensor \<Rightarrow> error + 'a tensor list" where
  "torch_unbind0 t =
     (case shape t of
        [] \<Rightarrow> Inl IndexError
      | n # s \<Rightarrow> Inr (map (\<lambda>i. \<lparr>shape = s, elems = block (prod_list s) i (elems t)\<rparr>) [0..<n]))"

text \<open>
  \<^verbatim>\<open>torch.narrow(t, d, start, len)\<close>, for \<open>d\<close> an axis of \<open>t\<close> and
  \<open>start + len\<close> within it: of every outer block, the \<open>len\<close> inner blocks from \<open>start\<close> on.
\<close>

definition narrow :: "nat \<Rightarrow> nat \<Rightarrow> nat \<Rightarrow> 'a tensor \<Rightarrow> 'a tensor" where
  "narrow d start len t =
     (let outer = prod_list (take d (shape t));
          n = shape t ! d;
          inner = prod_list (drop (Suc d) (shape t))
      in \<lparr>shape = (shape t)[d := len],
          elems = concat (map (\<lambda>out. take (len * inner) (drop ((out * n + start) * inner) (elems t)))
                              [0..<outer])\<rparr>)"

text \<open>
  The basic slice \<^verbatim>\<open>t[:, ..., :, start:, ...]\<close> with \<open>d\<close> full slices in front
  raises IndexError when \<open>t\<close> has no axis \<open>d\<close>, and clamps \<open>start\<close> to the axis.
\<close>

definition slice_from :: "nat \<Rightarrow> nat \<Rightarrow> 'a tensor \<Rightarrow> error + 'a tensor" where
  "slice_from d start t =
     (if length (shape t) \<le> d then Inl IndexError
      else let n = shape t ! d; s = min start n in Inr (narrow d s (n - s) t))"

text \<open>
  \<^verbatim>\<open>torch.split(t, split_size, dim=d)\<close>, for \<open>d\<close> an axis of \<open>t\<close>: pieces of \<open>split_size\<close> along
  \<open>d\<close>, the last one possibly shorter, and one empty piece when the axis is empty. A zero
  \<open>split_size\<close> is an error unless the axis is empty.
\<close>

definition torch_split :: "'a tensor \<Rightarrow> nat \<Rightarrow> nat \<Rightarrow> error + 'a tensor list" where
  "torch_split t split_size d =
     (let n = shape t ! d in
      if split_size = 0 then
        (if n = 0 then Inr [t] else Inl (RuntimeError ''split_size can only be 0 if dimension size is 0''))
      else Inr (map (\<lambda>i. narrow d (i * split_size) (min split_size (n - i * split_size)) t)
                    [0..<max 1 ((n + split_size - 1) div split_size)]))"

text \<open>
  \<^verbatim>\<open>torch.cat(ts, dim=d)\<close>: one-dimensional empty tensors are skipped; the others
  must agree on every axis but \<open>d\<close>.
\<close>

definition torch_cat :: "'a tensor list \<Rightarrow> nat \<Rightarrow> error + 'a tensor" where
  "torch_cat ts d =
     (case ts of
        [] \<Rightarrow> Inl (RuntimeError ''torch.cat(): expected a non-empty list of Tensors'')
      | t0 # _ \<Rightarrow>
         (case filter (\<lambda>u. shape u \<noteq> [0]) ts of
            [] \<Rightarrow> Inr t0
          | t # us \<Rightarrow>
              if length (shape t) \<le> d then Inl IndexError
              else if list_all (\<lambda>u. (shape u)[d := 0] = (shape t)[d := 0]) us
              then (let outer = prod_list (take d (shape t));
                        inner = prod_list (drop (Suc d) (shape t))
                    in Inr \<lparr>shape = (shape t)[d := sum_list (map (\<lambda>u. shape u ! d) (t # us))],
                            elems = concat (map (\<lambda>out. concat (map (\<lambda>u. block (shape u ! d * inner) out (elems u))
                                                                     (t # us)))
                                                [0..<outer])\<rparr>)
              else Inl (RuntimeError ''Sizes of tensors must match except in dimension'')))"

section \<open>Token chunking and the prefix hash chain\<close>

text \<open>
  A one-dimensional token tensor is the list of its token ids. The digest
  \<^verbatim>\<open>hashlib.sha256(prefix_hash.encode("ascii") + tokens.cpu().numpy().tobytes()).hexdigest()\<close>
  is a library function outside the repository; it is the parameter \<open>digest\<close>, applied
  to the previous hash and the chunk's tokens.
\<close>

type_synonym tokens = "int list"
type_synonym hasher = "string \<Rightarrow> tokens \<Rightarrow> string"

definition get_init_hash :: string where
  "get_init_hash = ''''"

definition hash_chunk :: "hasher \<Rightarrow> tokens \<Rightarrow> string \<Rightarrow> string" where
  "hash_chunk digest toks prefix_hash = digest prefix_hash toks"

text \<open>
  \<^verbatim>\<open>for i in range(0, len(tokens), chunk_size): yield tokens[i:i + chunk_size]\<close>.
  The recursion is the loop with the first \<open>i\<close> tokens already dropped; \<open>range\<close> raises
  ValueError for a zero step, which \<open>chunk_tokens\<close> reports. The chunk size is a
  natural number: the configuration gives a positive integer.
\<close>

function chunk_loop :: "nat \<Rightarrow> tokens \<Rightarrow> tokens list" where
  "chunk_loop cs toks =
     (if cs = 0 \<or> toks = [] then []
      else take cs toks # chunk_loop cs (drop cs toks))"
  by pat_completeness auto
termination
  by (relation "measure (\<lambda>(cs, toks). length toks)") auto

definition chunk_tokens :: "nat \<Rightarrow> tokens \<Rightarrow> error + tokens list" where
  "chunk_tokens cs toks =
     (if cs = 0 then Inl (ValueError ''range() arg 3 must not be zero'')
      else Inr (chunk_loop cs toks))"

text \<open>
  The loop of \<^verbatim>\<open>_prefix_hash\<close>: \<open>prefix_hash\<close> is threaded through the chunks and
  every new hash is appended to \<open>prefix_hashes\<close>; the result is
  \<^verbatim>\<open>prefix_hashes[num_skip_chunk:]\<close>.
\<close>

fun hash_loop :: "hasher \<Rightarrow> string \<Rightarrow> tokens list \<Rightarrow> string list" where
  "hash_loop digest prefix_hash [] = []"
| "hash_loop digest prefix_hash (token_chunk # token_chunks) =
     (let prefix_hash' = hash_chunk digest token_chunk prefix_hash
      in prefix_hash' # hash_loop digest prefix_hash' token_chunks)"

definition prefix_hash :: "hasher \<Rightarrow> tokens list \<Rightarrow> nat \<Rightarrow> string list" where
  "prefix_hash digest token_chunks num_skip_chunk =
     drop num_skip_chunk (hash_loop digest get_init_hash token_chunks)"

section \<open>Configuration, metadata, cache keys and the storage backend\<close>

text \<open>
  The fields of the configuration and of the metadata that the engine reads, with the
  ones \<^verbatim>\<open>config.py\<close> declares. Both are dataclasses: equality is field by field.
\<close>

record lmcache_engine_config =
  config_chunk_size :: nat
  local_device :: "string option"
  remote_url :: "string option"
  config_save_decode_cache :: bool

record lmcache_engine_metadata =
  model_name :: string
  world_size :: int
  worker_id :: int
  fmt :: string

record cache_engine_key =
  key_fmt :: string
  key_model_name :: string
  key_world_size :: int
  key_worker_id :: int
  key_chunk_hash :: string

text \<open>
  Modelled from the spec: the storage backend (\<^verbatim>\<open>lmcache.storage_backend\<close>) is not
  among the sources. The spec gives its contract: \<^verbatim>\<open>contains(key) -> bool\<close>,
  \<^verbatim>\<open>batchedPut(iterable of (key, blob), blocking) -> count\<close>,
  \<^verbatim>\<open>batchedGet(iterable of key) -> sequence of (blob | absent)\<close> in the order of the
  keys, and \<^verbatim>\<open>close()\<close>. The backend is a dictionary from keys to blobs; a put writes
  the pairs in order and reports how many it was given. Calls are sequential: a
  non-blocking put has written its pairs when it returns.
\<close>

record 'a storage_backend =
  kv_store :: "cache_engine_key \<rightharpoonup> 'a tensor"
  closed :: bool

definition contains :: "'a storage_backend \<Rightarrow> cache_engine_key \<Rightarrow> bool" where
  "contains be k = (kv_store be k \<noteq> None)"

definition put :: "'a storage_backend \<Rightarrow> cache_engine_key \<times> 'a tensor \<Rightarrow> 'a storage_backend" where
  "put be kb = be\<lparr>kv_store := (kv_store be)(fst kb \<mapsto> snd kb)\<rparr>"

definition batched_put ::
  "'a storage_backend \<Rightarrow> (cache_engine_key \<times> 'a tensor) list \<Rightarrow> bool \<Rightarrow> nat \<times> 'a storage_backend" where
  "batched_put be pairs blocking = (length pairs, foldl put be pairs)"

definition batched_get :: "'a storage_backend \<Rightarrow> cache_engine_key list \<Rightarrow> 'a tensor option list" where
  "batched_get be ks = map (kv_store be) ks"

definition backend_close :: "'a storage_backend \<Rightarrow> 'a storage_backend" where
  "backend_close be = be\<lparr>closed := True\<rparr>"

section \<open>The cache engine\<close>

text \<open>
  The attributes of \<^verbatim>\<open>LMCacheEngine\<close>. The hit rate is the exact quotient of the two
  counters, of which the Python float is the rounded value. No engine has the attribute
  \<^verbatim>\<open>tracker\<close>: the constructor sets it last, from a call that raises (see
  \<open>new_engine\<close>). Logging and timing change no attribute and no result.
\<close>

record 'a lmcache_engine =
  config :: lmcache_engine_config
  metadata :: lmcache_engine_metadata
  chunk_size :: nat
  save_decode_cache :: bool
  miss_tokens_count :: int
  hit_tokens_count :: int
  hit_rate :: rat
  engine_backend :: "'a storage_backend"

text \<open>
  \<^verbatim>\<open>Tracker.__init__\<close> (\<^verbatim>\<open>lmcache/usage_tracker.py\<close>) has five parameters after
  \<^verbatim>\<open>self\<close>, none with a default value. A call with another number of positional
  arguments raises a TypeError before the body runs. The body writes messages to the log
  and starts a thread; it touches nothing of the engine.
\<close>

definition tracker_params :: "string list" where
  "tracker_params = [''server_host'', ''server_port'', ''config'', ''metadata'', ''local_log'']"

definition tracker_init :: "nat \<Rightarrow> error + unit" where
  "tracker_init num_args = (if num_args = length tracker_params then Inr () else Inl TypeError)"

text \<open>
  \<^verbatim>\<open>LMCacheEngine.__init__(config, metadata, tracker)\<close>. \<open>init_attributes\<close> is the
  assignments of the attributes. \<^verbatim>\<open>CreateStorageBackend\<close> is outside the sources and may
  raise: it is the parameter \<open>create\<close>. With \<open>tracker\<close> true, which is the default, the
  constructor ends with \<^verbatim>\<open>Tracker('http://...', config, metadata, None)\<close>, a call with
  four arguments.
\<close>

definition init_attributes ::
  "lmcache_engine_config \<Rightarrow> lmcache_engine_metadata \<Rightarrow> 'a storage_backend \<Rightarrow> 'a lmcache_engine" where
  "init_attributes cfg md created =
     \<lparr>config = cfg, metadata = md, chunk_size = config_chunk_size cfg,
      save_decode_cache = config_save_decode_cache cfg,
      miss_tokens_count = 0, hit_tokens_count = 0, hit_rate = 0, engine_backend = created\<rparr>"

definition new_engine ::
  "(lmcache_engine_config \<Rightarrow> lmcache_engine_metadata \<Rightarrow> error + 'a storage_backend)
     \<Rightarrow> lmcache_engine_config \<Rightarrow> lmcache_engine_metadata \<Rightarrow> bool \<Rightarrow> error + 'a lmcache_engine" where
  "new_engine create cfg md tracker =
     bind_err (create cfg md) (\<lambda>created.
     let self = init_attributes cfg md created in
     if tracker then bind_err (tracker_init 4) (\<lambda>_. Inr self) else Inr self)"

definition make_key :: "'a lmcache_engine \<Rightarrow> string \<Rightarrow> string \<Rightarrow> cache_engine_key" where
  "make_key e chunk_hash f =
     \<lparr>key_fmt = f, key_model_name = model_name (metadata e),
      key_world_size = world_size (metadata e),
      key_worker_id = worker_id (metadata e), key_chunk_hash = chunk_hash\<rparr>"

text \<open>
  The nested form is a tuple of (key tensor, value tensor) pairs, one per layer; the
  stacked form is one tensor. \<^verbatim>\<open>_num_tokens_in_kv\<close> takes either
  (\<^verbatim>\<open>Union[KVCache, torch.Tensor]\<close>) and reads \<^verbatim>\<open>kv_tensors[0][0].shape\<close>.
\<close>

type_synonym 'a kv_cache = "('a tensor \<times> 'a tensor) list"

datatype 'a kv = KVTuple "'a kv_cache" | KVBlob "'a tensor"

fun kv_0_0 :: "'a kv \<Rightarrow> error + 'a tensor" where
  "kv_0_0 (KVTuple []) = Inl IndexError"
| "kv_0_0 (KVTuple ((k, v) # layers)) = Inr k"
| "kv_0_0 (KVBlob t) = bind_err (index0 t 0) (\<lambda>layer. index0 layer 0)"

definition num_tokens_in_kv :: "'a kv \<Rightarrow> string \<Rightarrow> error + nat" where
  "num_tokens_in_kv kv_tensors f =
     (if f = ''huggingface'' then bind_err (kv_0_0 kv_tensors) (\<lambda>t. shape_at t 1)
      else if f = ''vllm'' then bind_err (kv_0_0 kv_tensors) (\<lambda>t. shape_at t 0)
      else Inl (ValueError ''Invalid format''))"

definition tuple_kv_to_blob :: "'a kv_cache \<Rightarrow> error + 'a tensor" where
  "tuple_kv_to_blob kv_tensors =
     (let k_temp = map fst kv_tensors; v_temp = map snd kv_tensors in
      bind_err (torch_stack k_temp) (\<lambda>k_tensor_blob.
      bind_err (torch_stack v_temp) (\<lambda>v_tensor_blob.
      bind_err (torch_stack [k_tensor_blob, v_tensor_blob]) (\<lambda>kv_tensors_flatten.
      permute_10234 kv_tensors_flatten))))"

definition blob_to_tuple_kv :: "'a tensor \<Rightarrow> error + 'a kv_cache" where
  "blob_to_tuple_kv blob =
     bind_err (torch_unbind0 blob) (\<lambda>outer_unbound.
       collect (\<lambda>inner_tensor.
                  bind_err (index0 inner_tensor 0) (\<lambda>k.
                  bind_err (index0 inner_tensor 1) (\<lambda>v. Inr (k, v))))
               outer_unbound)"

text \<open>
  A nested KV blob is well formed when it has a layer and all its key and value
  tensors are three-dimensional tensors of one shape.
\<close>

definition well_formed_kv :: "'a kv_cache \<Rightarrow> bool" where
  "well_formed_kv x =
     (case x of
        [] \<Rightarrow> False
      | (k0, v0) # _ \<Rightarrow>
          length (shape k0) = 3 \<and>
          list_all (\<lambda>(k, v). shape k = shape k0 \<and> shape v = shape k0 \<and> tensor_ok k \<and> tensor_ok v) x)"

definition slice_kv_at :: "nat \<Rightarrow> nat \<Rightarrow> 'a tensor \<Rightarrow> string \<Rightarrow> error + 'a tensor list" where
  "slice_kv_at cs start_idx kv_tensors f =
     (if f = ''vllm'' then
        bind_err (slice_from 2 start_idx kv_tensors) (\<lambda>t. torch_split t cs 2)
      else if f = ''huggingface'' then
        bind_err (slice_from 3 start_idx kv_tensors) (\<lambda>t. torch_split t cs 3)
      else Inl (ValueError ''Invalid format''))"

definition chunk_kv :: "nat \<Rightarrow> 'a tensor \<Rightarrow> string \<Rightarrow> error + 'a tensor list" where
  "chunk_kv cs kv_tensors f = slice_kv_at cs 0 kv_tensors f"


text \<open>
  \<^verbatim>\<open>assert cond, msg\<close>; \<^verbatim>\<open>range(0, stop, step)\<close>; and \<^verbatim>\<open>a // b\<close> on a
  zero-dimensional integer tensor, which raises a RuntimeError for a zero divisor.
\<close>

definition assert_that :: "bool \<Rightarrow> string \<Rightarrow> error + unit" where
  "assert_that cond msg = (if cond then Inr () else Inl (AssertionError msg))"

definition py_range0 :: "nat \<Rightarrow> nat \<Rightarrow> error + nat list" where
  "py_range0 stop step =
     (if step = 0 then Inl (ValueError ''range() arg 3 must not be zero'')
      else Inr (map (\<lambda>i. i * step) [0..<(stop + step - 1) div step]))"

definition tensor_floordiv :: "nat \<Rightarrow> nat \<Rightarrow> error + nat" where
  "tensor_floordiv a b = (if b = 0 then Inl (RuntimeError ''ZeroDivisionError'') else Inr (a div b))"

text \<open>
  \<^verbatim>\<open>len(mask) - torch.sum(mask)\<close> in \<^verbatim>\<open>store\<close>, where the mask has been checked to
  be one-dimensional: the number of entries of the mask that are false.
\<close>

definition mask_num_skip_tok :: "bool tensor \<Rightarrow> nat" where
  "mask_num_skip_tok msk = hd (shape msk) - length (filter (\<lambda>b. b) (elems msk))"

subsection \<open>Making the chunks to store\<close>

text \<open>
  The loop of \<^verbatim>\<open>_make_chunks_skip_existing\<close> over
  \<^verbatim>\<open>zip(chunk_hashes, range(0, num_tokens, chunk_size))\<close>: it returns
  \<open>start_token_idx\<close> (None when no chunk is absent) and \<open>start_chunk_idx\<close>.
\<close>

fun skip_scan :: "(string \<Rightarrow> bool) \<Rightarrow> (string \<times> nat) list \<Rightarrow> nat \<Rightarrow> nat option \<times> nat" where
  "skip_scan present [] start_chunk_idx = (None, start_chunk_idx)"
| "skip_scan present ((chunk_hash, idx) # rest) start_chunk_idx =
     (if \<not> present chunk_hash then (Some idx, start_chunk_idx)
      else skip_scan present rest (start_chunk_idx + 1))"

definition make_chunks_skip_existing ::
  "hasher \<Rightarrow> 'a lmcache_engine \<Rightarrow> tokens \<Rightarrow> 'a tensor \<Rightarrow> string \<Rightarrow> nat
     \<Rightarrow> error + (string \<times> 'a tensor) list" where
  "make_chunks_skip_existing digest e toks kv_tensors f num_skip_prefix_chunk =
     bind_err (chunk_tokens (chunk_size e) toks) (\<lambda>token_chunks.
     let chunk_hashes = prefix_hash digest token_chunks num_skip_prefix_chunk in
     bind_err (num_tokens_in_kv (KVBlob kv_tensors) f) (\<lambda>num_tokens.
     bind_err (py_range0 num_tokens (chunk_size e)) (\<lambda>idxs.
     (case skip_scan (\<lambda>chunk_hash. contains (engine_backend e) (make_key e chunk_hash f))
                     (zip chunk_hashes idxs) 0 of
        (None, start_chunk_idx) \<Rightarrow> Inr []
      | (Some start_token_idx, start_chunk_idx) \<Rightarrow>
          bind_err (slice_kv_at (chunk_size e) start_token_idx kv_tensors f) (\<lambda>chunk_kvs.
          Inr (zip (drop start_chunk_idx chunk_hashes) chunk_kvs))))))"

text \<open>The assertion of \<^verbatim>\<open>_make_chunks\<close> has no message.\<close>

definition make_chunks ::
  "hasher \<Rightarrow> 'a lmcache_engine \<Rightarrow> tokens \<Rightarrow> 'a tensor \<Rightarrow> string \<Rightarrow> nat \<Rightarrow> bool
     \<Rightarrow> error + (string \<times> 'a tensor) list" where
  "make_chunks digest e toks kv_tensors f num_skip_prefix_chunk skip_existing =
     (if skip_existing then
        make_chunks_skip_existing digest e toks kv_tensors f num_skip_prefix_chunk
      else
        bind_err (assert_that (num_skip_prefix_chunk = 0) []) (\<lambda>_.
        bind_err (chunk_tokens (chunk_size e) toks) (\<lambda>token_chunks.
        bind_err (chunk_kv (chunk_size e) kv_tensors f) (\<lambda>chunk_kvs.
        Inr (zip (prefix_hash digest token_chunks 0) chunk_kvs)))))"

subsection \<open>store\<close>

text \<open>
  \<^verbatim>\<open>store\<close> takes the tokens and the mask as tensors of any shape and checks them.
  \<open>store_prepare\<close> is its body up to the call of \<^verbatim>\<open>batched_put\<close>: the checks, the
  conversion to the stacked form and the chunks, as the (key, chunk) pairs handed to
  the backend. Every exception of the body is raised there. \<open>store_n_chunks\<close> is the
  body with the call, returning the local \<open>n_chunks\<close>, which the source only logs;
  \<open>store\<close> is the function, which ends without a \<^verbatim>\<open>return\<close> statement.
\<close>

definition store_prepare ::
  "hasher \<Rightarrow> 'a lmcache_engine \<Rightarrow> int tensor \<Rightarrow> 'a kv_cache \<Rightarrow> bool tensor option \<Rightarrow> bool
     \<Rightarrow> error + (cache_engine_key \<times> 'a tensor) list" where
  "store_prepare digest e toks kv_tensors_raw kv_tensors_mask_opt skip_existing =
     (let f = fmt (metadata e);
          kv_tensors_mask =
            (case kv_tensors_mask_opt of
               None \<Rightarrow> \<lparr>shape = shape toks, elems = replicate (numel toks) True\<rparr>
             | Some m \<Rightarrow> m)
      in
      bind_err (assert_that (length (shape toks) = 1) ''Invalid shape of tokens'') (\<lambda>_.
      bind_err (assert_that (length (shape kv_tensors_mask) = 1) ''Invalid shape of mask'') (\<lambda>_.
      bind_err (assert_that (hd (shape toks) = hd (shape kv_tensors_mask))
                  ''token length does not match mask length'') (\<lambda>_.
      let num_skip_tok = mask_num_skip_tok kv_tensors_mask in
      bind_err (tensor_floordiv num_skip_tok (chunk_size e)) (\<lambda>num_skip_chunk.
      bind_err (assert_that (num_skip_tok = num_skip_chunk * chunk_size e)
                  ''Store KV mask should align to chunk size'') (\<lambda>_.
      bind_err (num_tokens_in_kv (KVTuple kv_tensors_raw) f) (\<lambda>num_tokens.
      bind_err (assert_that (hd (shape toks) = num_tokens + num_skip_tok)
                  ''Number of tokens in the kv cache does not match the input tokens'') (\<lambda>_.
      bind_err (tuple_kv_to_blob kv_tensors_raw) (\<lambda>kv_tensors.
      bind_err (make_chunks digest e (elems toks) kv_tensors f num_skip_chunk skip_existing)
        (\<lambda>chunk_hashes_and_kvs.
      Inr (map (\<lambda>(chunk_hash, kv_chunk). (make_key e chunk_hash f, kv_chunk))
               chunk_hashes_and_kvs)))))))))))"

definition store_n_chunks ::
  "hasher \<Rightarrow> 'a lmcache_engine \<Rightarrow> int tensor \<Rightarrow> 'a kv_cache \<Rightarrow> bool tensor option \<Rightarrow> bool \<Rightarrow> bool
     \<Rightarrow> (error + nat) \<times> 'a lmcache_engine" where
  "store_n_chunks digest e toks kv_tensors_raw kv_tensors_mask skip_existing blocking =
     (case store_prepare digest e toks kv_tensors_raw kv_tensors_mask skip_existing of
        Inl er \<Rightarrow> (Inl er, e)
      | Inr pairs \<Rightarrow>
          (let (n_chunks, be) = batched_put (engine_backend e) pairs blocking
           in (Inr n_chunks, e\<lparr>engine_backend := be\<rparr>)))"

definition store ::
  "hasher \<Rightarrow> 'a lmcache_engine \<Rightarrow> int tensor \<Rightarrow> 'a kv_cache \<Rightarrow> bool tensor option \<Rightarrow> bool \<Rightarrow> bool
     \<Rightarrow> (error + pyval) \<times> 'a lmcache_engine" where
  "store digest e toks kv_tensors_raw kv_tensors_mask skip_existing blocking =
     (case store_n_chunks digest e toks kv_tensors_raw kv_tensors_mask skip_existing blocking of
        (Inl er, e') \<Rightarrow> (Inl er, e')
      | (Inr n_chunks, e') \<Rightarrow> (Inr PyNone, e'))"

subsection \<open>retrieve\<close>

text \<open>
  \<^verbatim>\<open>retrieve\<close> and \<^verbatim>\<open>lookup\<close> take one-dimensional tokens, as their docstrings say
  (\<^verbatim>\<open>shape [seq_len]\<close>), and \<^verbatim>\<open>retrieve\<close> a one-dimensional mask: both are lists.
  \<open>list_num_skip_tok\<close> is \<^verbatim>\<open>len(mask) - torch.sum(mask)\<close> on such a mask. \<open>take_hits\<close>
  is the loop that appends the chunks of the retrieval iterator until the first
  \<^verbatim>\<open>None\<close>; \<open>set_false_upto k\<close> is \<^verbatim>\<open>ret_mask[:k] = False\<close> and
  \<open>set_false_from k\<close> is \<^verbatim>\<open>ret_mask[k:] = False\<close>.
\<close>

definition list_num_skip_tok :: "bool list \<Rightarrow> nat" where
  "list_num_skip_tok msk = length msk - length (filter (\<lambda>b. b) msk)"

fun take_hits :: "'b option list \<Rightarrow> 'b list" where
  "take_hits [] = []"
| "take_hits (None # rest) = []"
| "take_hits (Some chunk # rest) = chunk # take_hits rest"

definition set_false_upto :: "nat \<Rightarrow> bool list \<Rightarrow> bool list" where
  "set_false_upto k ret_mask = replicate (min k (length ret_mask)) False @ drop k ret_mask"

definition set_false_from :: "nat \<Rightarrow> bool list \<Rightarrow> bool list" where
  "set_false_from k ret_mask = take k ret_mask @ replicate (length ret_mask - k) False"

definition fmt_dim :: "string \<Rightarrow> error + nat" where
  "fmt_dim f =
     (if f = ''huggingface'' then Inr 1
      else if f = ''vllm'' then Inr 0
      else Inl (ValueError ''Invalid format''))"

text \<open>
  The first part of \<^verbatim>\<open>retrieve\<close>: \<open>num_skip_tok\<close>, \<open>num_skip_chunk\<close>, the token axis
  \<open>tdim\<close> and \<open>retrieved_kv_chunks\<close>.
\<close>

definition retrieve_hits ::
  "hasher \<Rightarrow> 'a lmcache_engine \<Rightarrow> tokens \<Rightarrow> bool list option
     \<Rightarrow> error + (nat \<times> nat \<times> nat \<times> 'a tensor list)" where
  "retrieve_hits digest e toks msk =
     bind_err (case msk of
                 None \<Rightarrow> Inr (0, 0)
               | Some m \<Rightarrow> bind_err (tensor_floordiv (list_num_skip_tok m) (chunk_size e))
                             (\<lambda>num_skip_chunk. Inr (list_num_skip_tok m, num_skip_chunk)))
       (\<lambda>(num_skip_tok, num_skip_chunk).
     let f = fmt (metadata e) in
     bind_err (chunk_tokens (chunk_size e) toks) (\<lambda>token_chunks.
     let chunk_hashes = prefix_hash digest token_chunks num_skip_chunk;
         retrival_iterator =
           batched_get (engine_backend e) (map (\<lambda>chunk_hash. make_key e chunk_hash f) chunk_hashes);
         retrieved_kv_chunks = take_hits retrival_iterator
     in
     bind_err (fmt_dim f) (\<lambda>tdim.
     Inr (num_skip_tok, num_skip_chunk, tdim, retrieved_kv_chunks))))"

text \<open>
  The second part, for a non-empty \<open>retrieved_kv_chunks\<close>: the first chunk is trimmed,
  the chunks are concatenated along the token axis, and \<open>retrieved_token_count\<close> is
  read from the shape of the result.
\<close>

definition retrieve_concat ::
  "'a lmcache_engine \<Rightarrow> nat \<Rightarrow> nat \<Rightarrow> nat \<Rightarrow> 'a tensor list \<Rightarrow> bool \<Rightarrow> error + ('a kv \<times> nat)" where
  "retrieve_concat e num_skip_tok num_skip_chunk tdim retrieved_kv_chunks return_tuple =
     (let extra_token_len = num_skip_tok - num_skip_chunk * chunk_size e in
      bind_err (slice_kv_at (chunk_size e) extra_token_len (hd retrieved_kv_chunks) (fmt (metadata e)))
        (\<lambda>pieces.
      bind_err (case pieces of [] \<Rightarrow> Inl IndexError | piece # _ \<Rightarrow> Inr piece) (\<lambda>first_chunk.
      bind_err (torch_cat (first_chunk # tl retrieved_kv_chunks) (tdim + 2)) (\<lambda>catted.
      if return_tuple then
        bind_err (blob_to_tuple_kv catted) (\<lambda>ret.
        bind_err (case ret of [] \<Rightarrow> Inr 0 | (k, v) # _ \<Rightarrow> shape_at k tdim)
          (\<lambda>retrieved_token_count.
        Inr (KVTuple ret, retrieved_token_count)))
      else
        bind_err (if numel catted = 0 then Inr 0 else shape_at catted (tdim + 2))
          (\<lambda>retrieved_token_count.
        Inr (KVBlob catted, retrieved_token_count))))))"

definition retrieve ::
  "hasher \<Rightarrow> 'a lmcache_engine \<Rightarrow> tokens \<Rightarrow> bool list option \<Rightarrow> bool
     \<Rightarrow> (error + ('a kv \<times> bool list)) \<times> 'a lmcache_engine" where
  "retrieve digest e toks msk return_tuple =
     (case retrieve_hits digest e toks msk of
        Inl er \<Rightarrow> (Inl er, e)
      | Inr (num_skip_tok, num_skip_chunk, tdim, retrieved_kv_chunks) \<Rightarrow>
         (let ret_mask = set_false_upto num_skip_tok (replicate (length toks) True) in
          if retrieved_kv_chunks = [] then
            (Inr (KVTuple [], set_false_from 0 ret_mask),
             e\<lparr>miss_tokens_count := miss_tokens_count e + int (length toks)\<rparr>)
          else
            (case retrieve_concat e num_skip_tok num_skip_chunk tdim retrieved_kv_chunks return_tuple of
               Inl er \<Rightarrow> (Inl er, e)
             | Inr (ret, retrieved_token_count) \<Rightarrow>
                (let e1 = e\<lparr>hit_tokens_count := hit_tokens_count e + int retrieved_token_count\<rparr>
                 in if miss_tokens_count e1 + hit_tokens_count e1 = 0 then (Inl ZeroDivisionError, e1)
                    else (Inr (ret, set_false_from (num_skip_tok + retrieved_token_count) ret_mask),
                          e1\<lparr>hit_rate := of_int (hit_tokens_count e1)
                                          / of_int (miss_tokens_count e1 + hit_tokens_count e1)\<rparr>)))))"

subsection \<open>lookup and close\<close>



definition close :: "'a lmcache_engine \<Rightarrow> 'a lmcache_engine" where
  "close e = e\<lparr>engine_backend := backend_close (engine_backend e)\<rparr>"

section \<open>The engine registry\<close>

text \<open>
  \<^verbatim>\<open>LMCacheEngineBuilder\<close> keeps three class-level dictionaries. Engines are objects:
  the registry holds references, so the state has a heap of engines by address, and
  \<open>allocated\<close> is the next free address. \<^verbatim>\<open>CreateStorageBackend\<close>, called by the
  engine's constructor, is the parameter \<open>create\<close>. \<^verbatim>\<open>get_or_create\<close> constructs with
  \<^verbatim>\<open>LMCacheEngine(config, metadata)\<close>, so with the default \<^verbatim>\<open>tracker=True\<close>; an
  exception of the constructor leaves the dictionaries as they were.
\<close>

record 'a lmcache_engine_builder =
  heap :: "nat \<rightharpoonup> 'a lmcache_engine"
  allocated :: nat
  instances :: "string \<rightharpoonup> nat"
  cfgs :: "string \<rightharpoonup> lmcache_engine_config"
  metadatas :: "string \<rightharpoonup> lmcache_engine_metadata"

definition empty_builder :: "'a lmcache_engine_builder" where
  "empty_builder =
     \<lparr>heap = Map.empty, allocated = 0, instances = Map.empty, cfgs = Map.empty,
      metadatas = Map.empty\<rparr>"

definition get_or_create ::
  "(lmcache_engine_config \<Rightarrow> lmcache_engine_metadata \<Rightarrow> error + 'a storage_backend)
     \<Rightarrow> 'a lmcache_engine_builder \<Rightarrow> string \<Rightarrow> lmcache_engine_config \<Rightarrow> lmcache_engine_metadata
     \<Rightarrow> (error + nat) \<times> 'a lmcache_engine_builder" where
  "get_or_create create cls instance_id cfg md =
     (case instances cls instance_id of
        None \<Rightarrow>
          (case new_engine create cfg md True of
             Inl er \<Rightarrow> (Inl er, cls)
           | Inr constructed \<Rightarrow>
               (let engine = allocated cls in
                (Inr engine,
                 cls\<lparr>heap := (heap cls)(engine \<mapsto> constructed),
                     allocated := Suc engine,
                     instances := (instances cls)(instance_id \<mapsto> engine),
                     cfgs := (cfgs cls)(instance_id \<mapsto> cfg),
                     metadatas := (metadatas cls)(instance_id \<mapsto> md)\<rparr>)))
      | Some engine \<Rightarrow>
          (case cfgs cls instance_id of
             None \<Rightarrow> (Inl KeyError, cls)
           | Some c \<Rightarrow>
               if c \<noteq> cfg
               then (Inl (ValueError ''already exists with a different configuration or metadata''), cls)
               else (case metadatas cls instance_id of
                       None \<Rightarrow> (Inl KeyError, cls)
                     | Some m \<Rightarrow>
                         if m \<noteq> md
                         then (Inl (ValueError ''already exists with a different configuration or metadata''), cls)
                         else (Inr engine, cls))))"

definition builder_get :: "'a lmcache_engine_builder \<Rightarrow> string \<Rightarrow> nat option" where
  "builder_get cls instance_id = instances cls instance_id"

definition destroy :: "'a lmcache_engine_builder \<Rightarrow> string \<Rightarrow> 'a lmcache_engine_builder" where
  "destroy cls instance_id =
     (case instances cls instance_id of
        None \<Rightarrow> cls
      | Some engine \<Rightarrow>
          cls\<lparr>heap := (heap cls)(engine := map_option close (heap cls engine)),
              instances := (instances cls)(instance_id := None),
              cfgs := (cfgs cls)(instance_id := None),
              metadatas := (metadatas cls)(instance_id := None)\<rparr>)"

text \<open>
  The three dictionaries of a registry have the same keys, and every registered
  reference is an engine of the heap.
\<close>

definition builder_ok :: "'a lmcache_engine_builder \<Rightarrow> bool" where
  "builder_ok cls =
     (dom (cfgs cls) = dom (instances cls) \<and> dom (metadatas cls) = dom (instances cls)
      \<and> ran (instances cls) \<subseteq> dom (heap cls)
      \<and> dom (heap cls) \<subseteq> {a. a < allocated cls})"

section \<open>Dropping separators\<close>

text \<open>
  Modelled from the spec: \<^verbatim>\<open>SPTBlendRetriever.drop_spt_and_get_indices\<close>
  (\<^verbatim>\<open>lmcache/blend/retriever.py\<close>) is not among the sources; only its test is. The spec:
  it "scans the token sequence for all occurrences of a fixed separator token pattern
  (SPT, length \<ge> 1), removes every occurrence, and records, for each removed occurrence
  except one at the very end, the index in the cleaned sequence where the next segment
  begins". The scan goes from left to right; \<open>cleaned\<close> and \<open>indices\<close> are what has
  been kept and recorded so far.
\<close>

function scan_spt :: "int list \<Rightarrow> int list \<Rightarrow> int list \<Rightarrow> nat list \<Rightarrow> int list \<times> nat list" where
  "scan_spt spt prompt cleaned indices =
     (if prompt = [] then (cleaned, indices)
      else if spt \<noteq> [] \<and> take (length spt) prompt = spt then
        (let rest = drop (length spt) prompt
         in scan_spt spt rest cleaned (if rest = [] then indices else indices @ [length cleaned]))
      else scan_spt spt (tl prompt) (cleaned @ [hd prompt]) indices)"
  by pat_completeness auto
termination
  by (relation "measure (\<lambda>(spt, prompt, cleaned, indices). length prompt)")
    (auto simp: neq_Nil_conv)

definition drop_spt_and_get_indices :: "int list \<Rightarrow> int list \<Rightarrow> int list \<times> nat list" where
  "drop_spt_and_get_indices spt full_prompt = scan_spt spt full_prompt [] []"

text \<open>The separator occurs in \<open>xs\<close> at position \<open>i\<close>.\<close>

definition occurs_at :: "int list \<Rightarrow> int list \<Rightarrow> nat \<Rightarrow> bool" where
  "occurs_at spt xs i = (i + length spt \<le> length xs \<and> take (length spt) (drop i xs) = spt)"

declare chunk_loop.simps [simp del]
declare scan_spt.simps [simp del]

section \<open>An example engine\<close>

text \<open>
  A small engine for concrete runs: chunks of two tokens in the vllm layout, one layer,
  one head of size one, and a digest that appends the chunk's tokens in unary to the
  previous hash. \<open>example_engine\<close> is what the constructor returns on an empty backend
  when called with \<^verbatim>\<open>tracker=False\<close>.
\<close>

definition example_digest :: hasher where
  "example_digest prev toks =
     prev @ concat (map (\<lambda>t. replicate (nat t) (CHR ''x'') @ '','') toks)"

definition example_metadata :: lmcache_engine_metadata where
  "example_metadata = \<lparr>model_name = ''m'', world_size = 1, worker_id = 0, fmt = ''vllm''\<rparr>"

definition example_config :: lmcache_engine_config where
  "example_config =
     \<lparr>config_chunk_size = 2, local_device = Some ''cpu'', remote_url = None,
      config_save_decode_cache = False\<rparr>"

definition example_engine :: "int lmcache_engine" where
  "example_engine =
     init_attributes example_config example_metadata \<lparr>kv_store = Map.empty, closed = False\<rparr>"

definition example_key :: "string \<Rightarrow> cache_engine_key" where
  "example_key h =
     \<lparr>key_fmt = ''vllm'', key_model_name = ''m'', key_world_size = 1, key_worker_id = 0,
      key_chunk_hash = h\<rparr>"

text \<open>The KV state of the three tokens 1, 2, 3, and the engine after storing it.\<close>

definition example_kv :: "int kv_cache" where
  "example_kv = [(\<lparr>shape = [3, 1, 1], elems = [11, 12, 13]\<rparr>, \<lparr>shape = [3, 1, 1], elems = [21, 22, 23]\<rparr>)]"

definition example_stored :: "int lmcache_engine" where
  "example_stored =
     example_engine\<lparr>engine_backend :=
       \<lparr>kv_store = [example_key ''x,xx,'' \<mapsto> \<lparr>shape = [1, 2, 2, 1, 1], elems = [11, 12, 21, 22]\<rparr>,
                    example_key ''x,xx,xxx,'' \<mapsto> \<lparr>shape = [1, 2, 1, 1, 1], elems = [13, 23]\<rparr>],
        closed = False\<rparr>\<rparr>"

text \<open>A backend with the keys of \<open>example_stored\<close> and other blobs.\<close>

definition example_other_backend :: "int storage_backend" where
  "example_other_backend =
     \<lparr>kv_store = [example_key ''x,xx,'' \<mapsto> \<lparr>shape = [0], elems = []\<rparr>,
                  example_key ''x,xx,xxx,'' \<mapsto> \<lparr>shape = [0], elems = []\<rparr>],
      closed = False\<rparr>"

text \<open>
  A backend factory that returns an empty backend, and a registry with one engine,
  registered as \<open>''a''\<close>.
\<close>

definition example_create ::
  "lmcache_engine_config \<Rightarrow> lmcache_engine_metadata \<Rightarrow> error + int storage_backend" where
  "example_create cfg md = Inr \<lparr>kv_store = Map.empty, closed = False\<rparr>"

definition example_builder :: "int lmcache_engine_builder" where
  "example_builder =
     \<lparr>heap = [0 \<mapsto> example_engine], allocated = 1, instances = [''a'' \<mapsto> 0],
      cfgs = [''a'' \<mapsto> example_config], metadatas = [''a'' \<mapsto> example_metadata]\<rparr>"

text \<open>
  Inputs of \<open>store\<close>: the three tokens of \<open>example_kv\<close>; four tokens with the KV state of
  the last two, a suffix mask that leaves out the first chunk, and a mask with the same
  number of false entries that is not a suffix mask.
\<close>

definition example_tokens :: "int tensor" where
  "example_tokens = \<lparr>shape = [3], elems = [1, 2, 3]\<rparr>"

definition example_tokens4 :: "int tensor" where
  "example_tokens4 = \<lparr>shape = [4], elems = [1, 2, 3, 4]\<rparr>"

definition example_kv2 :: "int kv_cache" where
  "example_kv2 = [(\<lparr>shape = [2, 1, 1], elems = [13, 14]\<rparr>, \<lparr>shape = [2, 1, 1], elems = [23, 24]\<rparr>)]"

definition example_suffix_mask :: "bool tensor" where
  "example_suffix_mask = \<lparr>shape = [4], elems = [False, False, True, True]\<rparr>"

definition example_gap_mask :: "bool tensor" where
  "example_gap_mask = \<lparr>shape = [4], elems = [False, True, False, True]\<rparr>"

text \<open>
  Chunks that can be concatenated along axis \<open>d\<close>: five-dimensional tensors with a
  key/value axis of size two that agree on every axis but \<open>d\<close>.
\<close>

definition kv_chunks_ok :: "nat \<Rightarrow> 'a tensor list \<Rightarrow> bool" where
  "kv_chunks_ok d chunks =
     (case chunks of
        [] \<Rightarrow> True
      | c0 # _ \<Rightarrow> length (shape c0) = 5 \<and> shape c0 ! 1 = 2
                 \<and> list_all (\<lambda>c. (shape c)[d := 0] = (shape c0)[d := 0]) chunks)"

text \<open>A backend that has the second chunk of the example tokens and not the first.\<close>

definition example_gap_engine :: "int lmcache_engine" where
  "example_gap_engine =
     example_engine\<lparr>engine_backend :=
       \<lparr>kv_store = [example_key ''x,xx,xxx,'' \<mapsto> \<lparr>shape = [1, 2, 1, 1, 1], elems = [13, 23]\<rparr>],
        closed = False\<rparr>\<rparr>"

section \<open>The prefix hash chain does not depend on the skip count\<close>

lemma hash_loop_length: "length (hash_loop digest h cs) = length cs"
  by (induction cs arbitrary: h) (simp_all add: Let_def)

text \<open>
  C9. For every list of token chunks and every skip count \<open>k\<close>, \<open>_prefix_hash\<close> with
  \<open>num_skip_chunk = k\<close> returns the list it returns with \<open>num_skip_chunk = 0\<close> without
  its first \<open>k\<close> entries: the hash of chunk \<open>k + i\<close> is the same in both, and so are
  the chunk keys made from them for the chunks that a mask leaves in.
\<close>

theorem prefix_hash_skip_drop:
  "prefix_hash digest token_chunks k = drop k (prefix_hash digest token_chunks 0)
   \<and> (\<forall>i. k + i < length token_chunks \<longrightarrow>
          prefix_hash digest token_chunks k ! i = prefix_hash digest token_chunks 0 ! (k + i))
   \<and> map (\<lambda>h. make_key e h f) (prefix_hash digest token_chunks k)
       = drop k (map (\<lambda>h. make_key e h f) (prefix_hash digest token_chunks 0))"
  by (simp add: prefix_hash_def hash_loop_length drop_map)

theorem prefix_hash_skip_drop_witness:
  "prefix_hash (\<lambda>p t. p @ ''x'') [[1, 2], [3, 4], [5]] 1 = [''xx'', ''xxx'']
   \<and> prefix_hash (\<lambda>p t. p @ ''x'') [[1, 2], [3, 4], [5]] 0 = [''x'', ''xx'', ''xxx'']
   \<and> 1 + 1 < length [[1, 2], [3, 4], [5::int]]
   \<and> prefix_hash (\<lambda>p t. p @ ''x'') [[1, 2], [3, 4], [5]] 1 ! 1
       = prefix_hash (\<lambda>p t. p @ ''x'') [[1, 2], [3, 4], [5]] 0 ! (1 + 1)"
  using prefix_hash_skip_drop [of "\<lambda>p t. p @ ''x''" "[[1, 2], [3, 4], [5]]" 1]
  by (simp add: prefix_hash_def get_init_hash_def hash_chunk_def Let_def)

section \<open>Nested and stacked KV blobs\<close>

lemma block_concat:
  "\<forall>x\<in>set xss. length x = m \<Longrightarrow> i < length xss \<Longrightarrow> block m i (concat xss) = xss ! i"
proof (induction xss arbitrary: i)
  case Nil
  then show ?case by simp
next
  case (Cons xs xss)
  show ?case
  proof (cases i)
    case 0
    with Cons.prems show ?thesis by (simp add: block_def)
  next
    case (Suc j)
    with Cons.prems have "block m j (concat xss) = xss ! j"
      using Cons.IH [of j] by simp
    with Cons.prems Suc show ?thesis by (simp add: block_def)
  qed
qed

lemma stack_same_shape:
  assumes "ts \<noteq> []" "\<forall>t\<in>set ts. shape t = s"
  shows "torch_stack ts = Inr \<lparr>shape = length ts # s, elems = concat (map elems ts)\<rparr>"
  using assms by (cases ts) (auto simp: torch_stack_def list_all_iff)

lemma tuple_kv_to_blob_wf:
  assumes "x \<noteq> []"
    and "\<forall>(k, v)\<in>set x. shape k = [a, b, c] \<and> shape v = [a, b, c]"
  shows "tuple_kv_to_blob x =
         Inr \<lparr>shape = [length x, 2, a, b, c],
              elems = concat (map (\<lambda>j. concat (map (\<lambda>i. block (a * b * c) (i * length x + j)
                         (concat (map (elems \<circ> fst) x) @ concat (map (elems \<circ> snd) x)))
                                                     [0..<2])) [0..<length x])\<rparr>"
proof -
  have "\<forall>t\<in>set (map fst x). shape t = [a, b, c]" "map fst x \<noteq> []"
    using assms by auto
  then have k: "torch_stack (map fst x) = Inr \<lparr>shape = length x # [a, b, c], elems = concat (map elems (map fst x))\<rparr>"
    using stack_same_shape [of "map fst x" "[a, b, c]"] by simp
  have "\<forall>t\<in>set (map snd x). shape t = [a, b, c]" "map snd x \<noteq> []"
    using assms by auto
  then have v: "torch_stack (map snd x) = Inr \<lparr>shape = length x # [a, b, c], elems = concat (map elems (map snd x))\<rparr>"
    using stack_same_shape [of "map snd x" "[a, b, c]"] by simp
  have kv: "torch_stack [\<lparr>shape = length x # [a, b, c], elems = concat (map elems (map fst x))\<rparr>,
                         \<lparr>shape = length x # [a, b, c], elems = concat (map elems (map snd x))\<rparr>]
      = Inr \<lparr>shape = [2, length x, a, b, c],
             elems = concat (map elems (map fst x)) @ concat (map elems (map snd x))\<rparr>"
    by (simp add: torch_stack_def)
  show ?thesis
    unfolding tuple_kv_to_blob_def Let_def k v bind_err.simps kv
    by (simp add: permute_10234_def)
qed

lemma kv_blocks:
  assumes "\<forall>(k, v)\<in>set x. length (elems k) = m \<and> length (elems v) = m" "j < length x"
  shows "block m j (concat (map (elems \<circ> fst) x) @ concat (map (elems \<circ> snd) x)) = elems (fst (x ! j))"
    and "block m (length x + j) (concat (map (elems \<circ> fst) x) @ concat (map (elems \<circ> snd) x)) = elems (snd (x ! j))"
proof -
  let ?xss = "map (elems \<circ> fst) x @ map (elems \<circ> snd) x"
  have len: "\<forall>xs\<in>set ?xss. length xs = m" using assms(1) by auto
  have c: "concat (map (elems \<circ> fst) x) @ concat (map (elems \<circ> snd) x) = concat ?xss" by simp
  show "block m j (concat (map (elems \<circ> fst) x) @ concat (map (elems \<circ> snd) x)) = elems (fst (x ! j))"
    unfolding c using block_concat [OF len, of j] assms(2) by (simp add: nth_append)
  show "block m (length x + j) (concat (map (elems \<circ> fst) x) @ concat (map (elems \<circ> snd) x)) = elems (snd (x ! j))"
    unfolding c using block_concat [OF len, of "length x + j"] assms(2) by (simp add: nth_append)
qed

lemma collect_map_Inr:
  "(\<And>i. i \<in> set js \<Longrightarrow> f (g i) = Inr (h i)) \<Longrightarrow> collect f (map g js) = Inr (map h js)"
  by (induction js) simp_all

lemma upt_2: "[0..<2] = [0, Suc 0]"
  by (simp add: upt_rec)

lemma tuple_kv_to_blob_elems:
  assumes "x \<noteq> []"
    and "\<forall>(k, v)\<in>set x. shape k = [a, b, c] \<and> shape v = [a, b, c] \<and> tensor_ok k \<and> tensor_ok v"
  shows "tuple_kv_to_blob x =
         Inr \<lparr>shape = [length x, 2, a, b, c],
              elems = concat (map (\<lambda>(k, v). elems k @ elems v) x)\<rparr>"
proof -
  have sh: "\<forall>(k, v)\<in>set x. shape k = [a, b, c] \<and> shape v = [a, b, c]"
    using assms(2) by auto
  have len: "\<forall>(k, v)\<in>set x. length (elems k) = a * b * c \<and> length (elems v) = a * b * c"
    using assms(2) by (auto simp: tensor_ok_def)
  have "map (\<lambda>j. concat (map (\<lambda>i. block (a * b * c) (i * length x + j)
             (concat (map (elems \<circ> fst) x) @ concat (map (elems \<circ> snd) x))) [0..<2])) [0..<length x]
        = map (\<lambda>j. (\<lambda>(k, v). elems k @ elems v) (x ! j)) [0..<length x]"
    using kv_blocks [OF len] by (auto simp: upt_2 split: prod.splits)
  also have "\<dots> = map (\<lambda>(k, v). elems k @ elems v) x"
    by (simp add: map_nth flip: map_map [unfolded comp_def])
  finally show ?thesis
    using tuple_kv_to_blob_wf [OF assms(1) sh] by simp
qed

text \<open>
  C2. For every well-formed nested KV blob \<open>x\<close> (at least one layer, and all key and
  value tensors three-dimensional and of one shape), the conversion to the stacked
  form succeeds and converting the result back yields \<open>x\<close> exactly:
  \<open>_blob_to_tuple_kv(_tuple_kv_to_blob(x)) == x\<close>.
\<close>

theorem blob_roundtrip:
  assumes "well_formed_kv x"
  shows "\<exists>blob. tuple_kv_to_blob x = Inr blob \<and> blob_to_tuple_kv blob = Inr x"
proof -
  obtain k0 v0 xs where x: "x = (k0, v0) # xs" 
    using assms by (cases x) (auto simp: well_formed_kv_def)
  have "length (shape k0) = 3" using assms x by (simp add: well_formed_kv_def)
  then obtain a b c where s: "shape k0 = [a, b, c]"
    by (auto simp: length_Suc_conv numeral_3_eq_3)
  have wf: "\<forall>(k, v)\<in>set x. shape k = [a, b, c] \<and> shape v = [a, b, c] \<and> tensor_ok k \<and> tensor_ok v"
    using assms x s by (auto simp: well_formed_kv_def list_all_iff)
  let ?m = "a * b * c"
  let ?blob = "\<lparr>shape = [length x, 2, a, b, c], elems = concat (map (\<lambda>(k, v). elems k @ elems v) x)\<rparr>"
  have to: "tuple_kv_to_blob x = Inr ?blob"
    using tuple_kv_to_blob_elems [OF _ wf] x by simp
  have len: "\<forall>ys\<in>set (map (\<lambda>(k, v). elems k @ elems v) x). length ys = 2 * ?m"
    using wf by (auto simp: tensor_ok_def)
  have inner: "\<And>i. i < length x \<Longrightarrow>
      block (2 * ?m) i (concat (map (\<lambda>(k, v). elems k @ elems v) x)) = elems (fst (x ! i)) @ elems (snd (x ! i))"
    using block_concat [OF len] by (simp add: split_beta)
  have unb: "torch_unbind0 ?blob =
      Inr (map (\<lambda>i. \<lparr>shape = [2, a, b, c], elems = elems (fst (x ! i)) @ elems (snd (x ! i))\<rparr>) [0..<length x])"
    using inner by (simp add: torch_unbind0_def mult.assoc)
  have sel: "\<And>i. i < length x \<Longrightarrow>
      bind_err (index0 \<lparr>shape = [2, a, b, c], elems = elems (fst (x ! i)) @ elems (snd (x ! i))\<rparr> 0) (\<lambda>k.
      bind_err (index0 \<lparr>shape = [2, a, b, c], elems = elems (fst (x ! i)) @ elems (snd (x ! i))\<rparr> 1) (\<lambda>v. Inr (k, v)))
      = Inr (x ! i)"
  proof -
    fix i assume i: "i < length x"
    then have "x ! i \<in> set x" by simp
    with wf have "shape (fst (x ! i)) = [a, b, c]" "shape (snd (x ! i)) = [a, b, c]"
      "length (elems (fst (x ! i))) = ?m" "length (elems (snd (x ! i))) = ?m"
      by (auto simp: tensor_ok_def split_beta)
    then show "bind_err (index0 \<lparr>shape = [2, a, b, c], elems = elems (fst (x ! i)) @ elems (snd (x ! i))\<rparr> 0) (\<lambda>k.
      bind_err (index0 \<lparr>shape = [2, a, b, c], elems = elems (fst (x ! i)) @ elems (snd (x ! i))\<rparr> 1) (\<lambda>v. Inr (k, v)))
      = Inr (x ! i)"
      by (simp add: index0_def block_def prod_eq_iff tensor.equality mult.assoc)
  qed
  have "blob_to_tuple_kv ?blob = Inr (map (\<lambda>i. x ! i) [0..<length x])"
    unfolding blob_to_tuple_kv_def unb bind_err.simps
    by (rule collect_map_Inr) (insert sel, simp)
  then have "blob_to_tuple_kv ?blob = Inr x" by (simp add: map_nth)
  with to show ?thesis by blast
qed


theorem blob_roundtrip_witness:
  "well_formed_kv [(\<lparr>shape = [2, 1, 1], elems = [1, 2 :: int]\<rparr>, \<lparr>shape = [2, 1, 1], elems = [3, 4]\<rparr>),
                   (\<lparr>shape = [2, 1, 1], elems = [5, 6]\<rparr>, \<lparr>shape = [2, 1, 1], elems = [7, 8]\<rparr>)]
   \<and> (\<exists>blob. tuple_kv_to_blob
               [(\<lparr>shape = [2, 1, 1], elems = [1, 2 :: int]\<rparr>, \<lparr>shape = [2, 1, 1], elems = [3, 4]\<rparr>),
                (\<lparr>shape = [2, 1, 1], elems = [5, 6]\<rparr>, \<lparr>shape = [2, 1, 1], elems = [7, 8]\<rparr>)] = Inr blob
          \<and> blob_to_tuple_kv blob =
              Inr [(\<lparr>shape = [2, 1, 1], elems = [1, 2 :: int]\<rparr>, \<lparr>shape = [2, 1, 1], elems = [3, 4]\<rparr>),
                   (\<lparr>shape = [2, 1, 1], elems = [5, 6]\<rparr>, \<lparr>shape = [2, 1, 1], elems = [7, 8]\<rparr>)])"
proof -
  have wf: "well_formed_kv [(\<lparr>shape = [2, 1, 1], elems = [1, 2 :: int]\<rparr>, \<lparr>shape = [2, 1, 1], elems = [3, 4]\<rparr>),
                   (\<lparr>shape = [2, 1, 1], elems = [5, 6]\<rparr>, \<lparr>shape = [2, 1, 1], elems = [7, 8]\<rparr>)]"
    by (simp add: well_formed_kv_def tensor_ok_def)
  from blob_roundtrip [OF wf] wf show ?thesis by simp
qed

section \<open>store\<close>

lemma store_fail:
  "store_prepare digest e toks kv msk se = Inl er \<Longrightarrow> store digest e toks kv msk se bl = (Inl er, e)"
  by (simp add: store_def store_n_chunks_def)

lemma store_ok:
  "store_prepare digest e toks kv msk se = Inr pairs \<Longrightarrow>
   store digest e toks kv msk se bl
     = (Inr PyNone, e\<lparr>engine_backend := snd (batched_put (engine_backend e) pairs bl)\<rparr>)
   \<and> store_n_chunks digest e toks kv msk se bl
     = (Inr (length pairs), e\<lparr>engine_backend := snd (batched_put (engine_backend e) pairs bl)\<rparr>)"
  by (simp add: store_def store_n_chunks_def batched_put_def)

lemma aligned_iff: "(n = n div c * c) = (c dvd (n::nat))"
  by (metis dvd_div_mult_self dvd_triv_right)

lemma store_prepare_checks:
  assumes "length (shape toks) \<noteq> 1
           \<or> (\<exists>m. msk = Some m \<and> (length (shape m) \<noteq> 1 \<or> hd (shape m) \<noteq> hd (shape toks)))
           \<or> (\<exists>m. msk = Some m \<and> 0 < chunk_size e \<and> \<not> chunk_size e dvd mask_num_skip_tok m)
           \<or> (\<exists>n. 0 < chunk_size e \<and> num_tokens_in_kv (KVTuple kv) (fmt (metadata e)) = Inr n
                  \<and> hd (shape toks) \<noteq> n + (case msk of None \<Rightarrow> 0 | Some m \<Rightarrow> mask_num_skip_tok m))"
  shows "\<exists>msg. store_prepare digest e toks kv msk se = Inl (AssertionError msg)"
proof (cases msk)
  case None
  have z: "length (shape toks) = 1 \<Longrightarrow>
       mask_num_skip_tok \<lparr>shape = shape toks, elems = replicate (numel toks) True\<rparr> = 0"
    by (cases "shape toks") (simp_all add: mask_num_skip_tok_def numel_def)
  show ?thesis
  proof (cases "length (shape toks) = 1")
    case False
    then show ?thesis by (simp add: store_prepare_def assert_that_def Let_def)
  next
    case True
    with assms None obtain n where "0 < chunk_size e"
      "num_tokens_in_kv (KVTuple kv) (fmt (metadata e)) = Inr n" "hd (shape toks) \<noteq> n"
      by auto
    with True None z show ?thesis
      by (simp add: store_prepare_def assert_that_def Let_def tensor_floordiv_def)
  qed
next
  case (Some m)
  show ?thesis
  proof (cases "length (shape toks) = 1 \<and> length (shape m) = 1 \<and> hd (shape m) = hd (shape toks)")
    case False
    with Some show ?thesis
      by (auto simp: store_prepare_def assert_that_def Let_def)
  next
    case True
    with assms Some have cs: "0 < chunk_size e" by auto
    show ?thesis
    proof (cases "chunk_size e dvd mask_num_skip_tok m")
      case False
      with True Some cs show ?thesis
        by (simp add: store_prepare_def assert_that_def Let_def tensor_floordiv_def aligned_iff)
    next
      case dv: True
      with assms Some True obtain n where
        "num_tokens_in_kv (KVTuple kv) (fmt (metadata e)) = Inr n" "hd (shape toks) \<noteq> n + mask_num_skip_tok m"
        by auto
      with True Some cs dv show ?thesis
        by (simp add: store_prepare_def assert_that_def Let_def tensor_floordiv_def aligned_iff)
    qed
  qed
qed

lemma suffix_mask_skip:
  "mask_num_skip_tok \<lparr>shape = [a + b], elems = replicate a False @ replicate b True\<rparr> = a
   \<and> length (takeWhile Not (replicate a False @ replicate b True)) = a"
proof -
  have "takeWhile Not (replicate b True) = []" by (cases b) simp_all
  then have "takeWhile Not (replicate a False @ replicate b True) = replicate a False"
    by (induction a) simp_all
  then show ?thesis by (simp add: mask_num_skip_tok_def)
qed


lemma chunk_loop_length:
  "0 < cs \<Longrightarrow> length (chunk_loop cs toks) = (length toks + cs - 1) div cs"
proof (induction cs toks rule: chunk_loop.induct)
  case (1 cs toks)
  show ?case
  proof (cases "toks = []")
    case True
    with "1.prems" show ?thesis by (simp add: chunk_loop.simps)
  next
    case False
    with 1 have ih: "length (chunk_loop cs (drop cs toks)) = (length toks - cs + cs - 1) div cs"
      by simp
    show ?thesis
    proof (cases "length toks \<le> cs")
      case True
      with False "1.prems" have "(length toks + cs - 1) div cs = 1"
        by (cases toks) (simp_all add: div_eq_dividend_iff Suc_le_eq div_nat_eqI)
      with True False "1.prems" ih show ?thesis
        by (subst chunk_loop.simps) simp
    next
      case gt: False
      then have "(length toks + cs - 1) div cs = Suc ((length toks - cs + cs - 1) div cs)"
        using "1.prems" le_div_geq [of cs "length toks + cs - 1"] by simp
      with False "1.prems" ih show ?thesis
        by (subst chunk_loop.simps) simp
    qed
  qed
qed

lemma foldl_put_store:
  "kv_store (foldl put be pairs) k =
     (case map_of (rev pairs) k of None \<Rightarrow> kv_store be k | Some v \<Rightarrow> Some v)"
proof (induction pairs arbitrary: be)
  case Nil
  then show ?case by simp
next
  case (Cons p pairs)
  have "kv_store (foldl put (put be p) pairs) k =
     (case map_of (rev pairs) k of None \<Rightarrow> kv_store (put be p) k | Some v \<Rightarrow> Some v)"
    by (rule Cons.IH)
  moreover have "kv_store (put be p) k = (if k = fst p then Some (snd p) else kv_store be k)"
    by (simp add: put_def)
  ultimately show ?case
    by (cases p) (simp add: map_add_def split: option.splits)
qed

lemma foldl_put_contains:
  "contains (foldl put be pairs) k = (k \<in> fst ` set pairs \<or> contains be k)"
proof -
  have "(map_of (rev pairs) k = None) = (k \<notin> fst ` set pairs)"
    by (simp add: map_of_eq_None_iff)
  then show ?thesis
    by (auto simp: contains_def foldl_put_store split: option.splits)
qed


lemma bind_err_Inr:
  "bind_err m f = Inr y \<Longrightarrow> \<exists>x. m = Inr x \<and> f x = Inr y"
  by (cases m) simp_all

lemma make_chunks_no_skip_assert:
  "0 < num_skip_chunk \<Longrightarrow>
   make_chunks digest e toks kv_tensors f num_skip_chunk False = Inl (AssertionError [])"
  by (simp add: make_chunks_def assert_that_def)

lemma store_prepare_skip_fails:
  assumes "0 < chunk_size e" "0 < mask_num_skip_tok m div chunk_size e"
  shows "\<exists>er. store_prepare digest e toks kv (Some m) False = Inl er"
proof (cases "store_prepare digest e toks kv (Some m) False")
  case (Inl er)
  then show ?thesis by blast
next
  case (Inr pairs)
  then have False
    using assms
    by (auto simp: store_prepare_def Let_def tensor_floordiv_def make_chunks_no_skip_assert
        dest!: bind_err_Inr)
  then show ?thesis ..
qed

lemma store_prepare_skip_assert:
  assumes "0 < chunk_size e" "0 < mask_num_skip_tok m div chunk_size e"
    and "length (shape toks) = 1" "length (shape m) = 1" "hd (shape toks) = hd (shape m)"
    and "chunk_size e dvd mask_num_skip_tok m"
    and "num_tokens_in_kv (KVTuple kv) (fmt (metadata e)) = Inr n"
    and "hd (shape toks) = n + mask_num_skip_tok m"
    and "tuple_kv_to_blob kv = Inr blob"
  shows "store_prepare digest e toks kv (Some m) False = Inl (AssertionError [])"
  using assms
  by (simp add: store_prepare_def Let_def assert_that_def tensor_floordiv_def aligned_iff
      make_chunks_no_skip_assert)

lemma narrow_shape: "shape (narrow d start len t) = (shape t)[d := len]"
  by (simp add: narrow_def Let_def)

lemma chunk_kv_length:
  assumes "0 < cs" "shape blob = [l, two, a, b, c]" "f = ''vllm'' \<or> f = ''huggingface''"
  shows "\<exists>kvs. chunk_kv cs blob f = Inr kvs
           \<and> length kvs = max 1 (((if f = ''vllm'' then a else b) + cs - 1) div cs)"
  using assms
  by (auto simp: chunk_kv_def slice_kv_at_def slice_from_def torch_split_def Let_def narrow_shape)

lemma make_chunks_all:
  assumes "0 < chunk_size e" "shape blob = [l, two, a, b, c]" "f = ''vllm'' \<or> f = ''huggingface''"
    and "length toks = (if f = ''vllm'' then a else b)"
  shows "\<exists>kvs. chunk_kv (chunk_size e) blob f = Inr kvs
           \<and> length kvs = max 1 (length (prefix_hash digest (chunk_loop (chunk_size e) toks) 0))
           \<and> make_chunks digest e toks blob f 0 False
               = Inr (zip (prefix_hash digest (chunk_loop (chunk_size e) toks) 0) kvs)"
proof -
  from chunk_kv_length [OF assms(1-3)] obtain kvs where
    kvs: "chunk_kv (chunk_size e) blob f = Inr kvs"
      "length kvs = max 1 ((length toks + chunk_size e - 1) div chunk_size e)"
    using assms(4) by auto
  let ?hs = "prefix_hash digest (chunk_loop (chunk_size e) toks) 0"
  have "length ?hs = (length toks + chunk_size e - 1) div chunk_size e"
    using assms(1) by (simp add: prefix_hash_def hash_loop_length chunk_loop_length)
  with kvs have "length kvs = max 1 (length ?hs)" by simp
  with kvs(1) assms(1) show ?thesis
    by (simp add: make_chunks_def assert_that_def chunk_tokens_def)
qed


lemma ones_like_skip:
  "length (shape toks) = 1 \<Longrightarrow>
   mask_num_skip_tok \<lparr>shape = shape toks, elems = replicate (numel toks) True\<rparr> = 0"
  by (cases "shape toks") (simp_all add: mask_num_skip_tok_def numel_def)

lemma store_prepare_all:
  assumes cs: "0 < chunk_size e"
    and f: "fmt (metadata e) = ''vllm'' \<or> fmt (metadata e) = ''huggingface''"
    and t: "length (shape toks) = 1" "tensor_ok toks"
    and wf: "well_formed_kv kv"
    and m: "msk = None \<or> (\<exists>m. msk = Some m \<and> length (shape m) = 1 \<and> hd (shape m) = hd (shape toks)
                               \<and> mask_num_skip_tok m = 0)"
    and n: "num_tokens_in_kv (KVTuple kv) (fmt (metadata e)) = Inr (hd (shape toks))"
    and keys: "keys = map (\<lambda>h. make_key e h (fmt (metadata e)))
                         (prefix_hash digest (chunk_loop (chunk_size e) (elems toks)) 0)"
  shows "\<exists>blob kvs. tuple_kv_to_blob kv = Inr blob
           \<and> chunk_kv (chunk_size e) blob (fmt (metadata e)) = Inr kvs
           \<and> length kvs = max 1 (length keys)
           \<and> store_prepare digest e toks kv msk False = Inr (zip keys kvs)"
proof -
  let ?f = "fmt (metadata e)"
  let ?hs = "prefix_hash digest (chunk_loop (chunk_size e) (elems toks)) 0"
  let ?mk = "case msk of None \<Rightarrow> \<lparr>shape = shape toks, elems = replicate (numel toks) True\<rparr> | Some m \<Rightarrow> m"
  have mk: "length (shape ?mk) = 1" "hd (shape toks) = hd (shape ?mk)" "mask_num_skip_tok ?mk = 0"
    using m t(1) ones_like_skip [of toks] by auto
  obtain k0 v0 rest where kv: "kv = (k0, v0) # rest"
    using wf by (cases kv) (auto simp: well_formed_kv_def)
  have "length (shape k0) = 3" using wf kv by (simp add: well_formed_kv_def)
  then obtain a b c where s: "shape k0 = [a, b, c]"
    by (auto simp: length_Suc_conv numeral_3_eq_3)
  have all: "\<forall>(k, v)\<in>set kv. shape k = [a, b, c] \<and> shape v = [a, b, c] \<and> tensor_ok k \<and> tensor_ok v"
    using wf kv s by (auto simp: well_formed_kv_def list_all_iff)
  let ?blob = "\<lparr>shape = [length kv, 2, a, b, c], elems = concat (map (\<lambda>(k, v). elems k @ elems v) kv)\<rparr>"
  have blob: "tuple_kv_to_blob kv = Inr ?blob"
    using tuple_kv_to_blob_elems [OF _ all] kv by simp
  have len: "length (elems toks) = (if ?f = ''vllm'' then a else b)"
  proof -
    from t obtain l where "shape toks = [l]" "length (elems toks) = l"
      by (cases "shape toks") (auto simp: tensor_ok_def)
    with n kv s f show ?thesis
      by (auto simp: num_tokens_in_kv_def shape_at_def)
  qed
  from make_chunks_all [OF cs _ f len, of ?blob "length kv" 2 c digest]
  obtain kvs where ch: "chunk_kv (chunk_size e) ?blob ?f = Inr kvs"
    "length kvs = max 1 (length ?hs)"
    "make_chunks digest e (elems toks) ?blob ?f 0 False = Inr (zip ?hs kvs)"
    by auto
  have "store_prepare digest e toks kv msk False
          = Inr (map (\<lambda>(chunk_hash, kv_chunk). (make_key e chunk_hash ?f, kv_chunk)) (zip ?hs kvs))"
    using t(1) mk cs n blob ch(3)
    by (simp add: store_prepare_def Let_def assert_that_def tensor_floordiv_def)
  moreover have "map (\<lambda>(chunk_hash, kv_chunk). (make_key e chunk_hash ?f, kv_chunk)) (zip ?hs kvs)
          = zip keys kvs"
    unfolding keys by (simp add: zip_map1)
  ultimately show ?thesis
    using blob ch(1,2) keys by auto
qed

lemma map_of_rev_zip_nth:
  assumes "distinct keys" "length keys \<le> length kvs" "i < length keys"
  shows "map_of (rev (zip keys kvs)) (keys ! i) = Some (kvs ! i)"
proof -
  have "map fst (zip keys kvs) = keys"
    using assms(2) by (simp add: map_fst_zip_take)
  with assms(1) have "distinct (map fst (rev (zip keys kvs)))"
    by (simp add: rev_map [symmetric])
  moreover have "(keys ! i, kvs ! i) \<in> set (rev (zip keys kvs))"
    using assms(2,3) by (auto simp: set_zip)
  ultimately show ?thesis by (rule map_of_is_SomeI)
qed

text \<open>
  C10. For every store call with \<open>skip_existing = False\<close> and a positive chunk size:
  when the mask leaves out at least one whole chunk (\<open>num_skip_chunk > 0\<close>) the call
  raises and the engine is as before; when the checks of \<open>store\<close> pass and the KV state
  converts to the stacked form, what it raises is the assertion of \<open>_make_chunks\<close> (the
  one without a message). When no token is masked out (and the tokens, the KV state and
  the format are well formed), the call returns, and the pairs it hands to
  \<open>batched_put\<close> are the chunk keys of the whole sequence, in order, each with its
  chunk of the stacked KV state, whatever the backend contained: no key is left out.
  The backend afterwards is the one \<open>batched_put\<close> leaves for these pairs: every key
  of the sequence maps to the chunk written last under it (to its own chunk when the
  keys are distinct), replacing what the backend had there, and every other key maps
  to what it did before.
\<close>

theorem store_no_skip_without_skip_existing:
  assumes cs: "0 < chunk_size e"
  shows "(0 < mask_num_skip_tok m div chunk_size e
            \<longrightarrow> (\<exists>er. store digest e toks kv (Some m) False blocking = (Inl er, e)))
       \<and> (0 < mask_num_skip_tok m div chunk_size e
            \<and> length (shape toks) = 1 \<and> length (shape m) = 1 \<and> hd (shape toks) = hd (shape m)
            \<and> chunk_size e dvd mask_num_skip_tok m
            \<and> num_tokens_in_kv (KVTuple kv) (fmt (metadata e)) = Inr n
            \<and> hd (shape toks) = n + mask_num_skip_tok m
            \<and> tuple_kv_to_blob kv = Inr blob
            \<longrightarrow> store digest e toks kv (Some m) False blocking = (Inl (AssertionError []), e))
       \<and> ((fmt (metadata e) = ''vllm'' \<or> fmt (metadata e) = ''huggingface'')
            \<and> length (shape toks) = 1 \<and> tensor_ok toks \<and> well_formed_kv kv
            \<and> (msk = None \<or> (\<exists>m'. msk = Some m' \<and> length (shape m') = 1
                                 \<and> hd (shape m') = hd (shape toks) \<and> mask_num_skip_tok m' = 0))
            \<and> num_tokens_in_kv (KVTuple kv) (fmt (metadata e)) = Inr (hd (shape toks))
            \<and> keys = map (\<lambda>h. make_key e h (fmt (metadata e)))
                         (prefix_hash digest (chunk_loop (chunk_size e) (elems toks)) 0)
            \<longrightarrow> (\<exists>stacked kvs e'.
                   tuple_kv_to_blob kv = Inr stacked
                   \<and> chunk_kv (chunk_size e) stacked (fmt (metadata e)) = Inr kvs
                   \<and> length kvs = max 1 (length keys)
                   \<and> store_prepare digest e toks kv msk False = Inr (zip keys kvs)
                   \<and> store digest e toks kv msk False blocking = (Inr PyNone, e')
                   \<and> e' = e\<lparr>engine_backend :=
                               snd (batched_put (engine_backend e) (zip keys kvs) blocking)\<rparr>
                   \<and> (\<forall>k. kv_store (engine_backend e') k
                         = (case map_of (rev (zip keys kvs)) k of
                              None \<Rightarrow> kv_store (engine_backend e) k
                            | Some chunk \<Rightarrow> Some chunk))
                   \<and> (distinct keys
                        \<longrightarrow> (\<forall>i < length keys. kv_store (engine_backend e') (keys ! i) = Some (kvs ! i)))
                   \<and> (\<forall>k. contains (engine_backend e') k
                         = (k \<in> set keys \<or> contains (engine_backend e) k))))"
proof (intro conjI impI)
  assume "0 < mask_num_skip_tok m div chunk_size e"
  from store_prepare_skip_fails [OF cs this]
  show "\<exists>er. store digest e toks kv (Some m) False blocking = (Inl er, e)"
    using store_fail by blast
next
  assume "0 < mask_num_skip_tok m div chunk_size e
            \<and> length (shape toks) = 1 \<and> length (shape m) = 1 \<and> hd (shape toks) = hd (shape m)
            \<and> chunk_size e dvd mask_num_skip_tok m
            \<and> num_tokens_in_kv (KVTuple kv) (fmt (metadata e)) = Inr n
            \<and> hd (shape toks) = n + mask_num_skip_tok m
            \<and> tuple_kv_to_blob kv = Inr blob"
  then have "store_prepare digest e toks kv (Some m) False = Inl (AssertionError [])"
    using store_prepare_skip_assert [OF cs] by blast
  then show "store digest e toks kv (Some m) False blocking = (Inl (AssertionError []), e)"
    by (rule store_fail)
next
  assume a: "(fmt (metadata e) = ''vllm'' \<or> fmt (metadata e) = ''huggingface'')
            \<and> length (shape toks) = 1 \<and> tensor_ok toks \<and> well_formed_kv kv
            \<and> (msk = None \<or> (\<exists>m'. msk = Some m' \<and> length (shape m') = 1
                                 \<and> hd (shape m') = hd (shape toks) \<and> mask_num_skip_tok m' = 0))
            \<and> num_tokens_in_kv (KVTuple kv) (fmt (metadata e)) = Inr (hd (shape toks))
            \<and> keys = map (\<lambda>h. make_key e h (fmt (metadata e)))
                         (prefix_hash digest (chunk_loop (chunk_size e) (elems toks)) 0)"
  then obtain stacked kvs where p: "tuple_kv_to_blob kv = Inr stacked"
    "chunk_kv (chunk_size e) stacked (fmt (metadata e)) = Inr kvs"
    "length kvs = max 1 (length keys)"
    "store_prepare digest e toks kv msk False = Inr (zip keys kvs)"
    using store_prepare_all [OF cs, of toks kv msk keys digest] by blast
  let ?e' = "e\<lparr>engine_backend := snd (batched_put (engine_backend e) (zip keys kvs) blocking)\<rparr>"
  have st: "store digest e toks kv msk False blocking = (Inr PyNone, ?e')"
    using store_ok [OF p(4)] by simp
  have le: "length keys \<le> length kvs" using p(3) by simp
  have v: "kv_store (engine_backend ?e') k
             = (case map_of (rev (zip keys kvs)) k of
                  None \<Rightarrow> kv_store (engine_backend e) k
                | Some chunk \<Rightarrow> Some chunk)" for k
    by (simp add: batched_put_def foldl_put_store)
  have d: "kv_store (engine_backend ?e') (keys ! i) = Some (kvs ! i)"
    if "distinct keys" "i < length keys" for i
    unfolding v using map_of_rev_zip_nth [OF that(1) le that(2)] by simp
  have "fst ` set (zip keys kvs) = set keys"
    using le by (simp add: map_fst_zip_take flip: set_map)
  then have c: "contains (engine_backend ?e') k = (k \<in> set keys \<or> contains (engine_backend e) k)" for k
    by (simp add: batched_put_def foldl_put_contains)
  show "\<exists>stacked kvs e'.
           tuple_kv_to_blob kv = Inr stacked
           \<and> chunk_kv (chunk_size e) stacked (fmt (metadata e)) = Inr kvs
           \<and> length kvs = max 1 (length keys)
           \<and> store_prepare digest e toks kv msk False = Inr (zip keys kvs)
           \<and> store digest e toks kv msk False blocking = (Inr PyNone, e')
           \<and> e' = e\<lparr>engine_backend :=
                       snd (batched_put (engine_backend e) (zip keys kvs) blocking)\<rparr>
           \<and> (\<forall>k. kv_store (engine_backend e') k
                 = (case map_of (rev (zip keys kvs)) k of
                      None \<Rightarrow> kv_store (engine_backend e) k
                    | Some chunk \<Rightarrow> Some chunk))
           \<and> (distinct keys
                \<longrightarrow> (\<forall>i < length keys. kv_store (engine_backend e') (keys ! i) = Some (kvs ! i)))
           \<and> (\<forall>k. contains (engine_backend e') k
                 = (k \<in> set keys \<or> contains (engine_backend e) k))"
    using p st v d c by (intro exI [of _ stacked] exI [of _ kvs] exI [of _ ?e']) blast
qed


lemma example_engine_simps:
  "chunk_size example_engine = 2" "fmt (metadata example_engine) = ''vllm''"
  "make_key example_engine h ''vllm'' = example_key h"
  by (simp_all add: example_engine_def init_attributes_def example_config_def example_metadata_def
      make_key_def example_key_def)

theorem store_no_skip_without_skip_existing_witness:
  "0 < chunk_size example_engine
   \<and> 0 < mask_num_skip_tok example_suffix_mask div chunk_size example_engine
   \<and> store example_digest example_engine example_tokens4 example_kv2 (Some example_suffix_mask) False True
       = (Inl (AssertionError []), example_engine)
   \<and> kv_store example_other_backend (example_key ''x,xx,'') = Some \<lparr>shape = [0], elems = []\<rparr>
   \<and> kv_store example_other_backend (example_key ''x,xx,xxx,'') = Some \<lparr>shape = [0], elems = []\<rparr>
   \<and> store_prepare example_digest (example_engine\<lparr>engine_backend := example_other_backend\<rparr>)
         example_tokens example_kv None False
       = Inr [(example_key ''x,xx,'', \<lparr>shape = [1, 2, 2, 1, 1], elems = [11, 12, 21, 22]\<rparr>),
              (example_key ''x,xx,xxx,'', \<lparr>shape = [1, 2, 1, 1, 1], elems = [13, 23]\<rparr>)]
   \<and> fst (store example_digest (example_engine\<lparr>engine_backend := example_other_backend\<rparr>)
            example_tokens example_kv None False True) = Inr PyNone
   \<and> kv_store (engine_backend (snd (store example_digest
          (example_engine\<lparr>engine_backend := example_other_backend\<rparr>)
          example_tokens example_kv None False True))) (example_key ''x,xx,'')
       = Some \<lparr>shape = [1, 2, 2, 1, 1], elems = [11, 12, 21, 22]\<rparr>
   \<and> kv_store (engine_backend (snd (store example_digest
          (example_engine\<lparr>engine_backend := example_other_backend\<rparr>)
          example_tokens example_kv None False True))) (example_key ''x,xx,xxx,'')
       = Some \<lparr>shape = [1, 2, 1, 1, 1], elems = [13, 23]\<rparr>"
proof -
  let ?e = "example_engine\<lparr>engine_backend := example_other_backend\<rparr>"
  let ?c1 = "\<lparr>shape = [1, 2, 2, 1, 1], elems = [11, 12, 21, 22 :: int]\<rparr>"
  let ?c2 = "\<lparr>shape = [1, 2, 1, 1, 1], elems = [13, 23 :: int]\<rparr>"
  let ?keys = "[example_key ''x,xx,'', example_key ''x,xx,xxx,'']"
  have cs: "0 < chunk_size example_engine" "0 < chunk_size ?e"
    by (simp_all add: example_engine_simps)
  have sk: "0 < mask_num_skip_tok example_suffix_mask div chunk_size example_engine"
    by (simp add: example_engine_simps mask_num_skip_tok_def example_suffix_mask_def)
  have pre: "length (shape example_tokens4) = 1" "length (shape example_suffix_mask) = 1"
    "hd (shape example_tokens4) = hd (shape example_suffix_mask)"
    "chunk_size example_engine dvd mask_num_skip_tok example_suffix_mask"
    "num_tokens_in_kv (KVTuple example_kv2) (fmt (metadata example_engine)) = Inr 2"
    "hd (shape example_tokens4) = 2 + mask_num_skip_tok example_suffix_mask"
    by (simp_all add: example_engine_simps mask_num_skip_tok_def example_suffix_mask_def
        example_tokens4_def example_kv2_def num_tokens_in_kv_def shape_at_def)
  have blob: "tuple_kv_to_blob example_kv2 = Inr \<lparr>shape = [1, 2, 2, 1, 1], elems = [13, 14, 23, 24]\<rparr>"
    by code_simp
  have pre2: "fmt (metadata ?e) = ''vllm''" "length (shape example_tokens) = 1"
    "tensor_ok example_tokens" "well_formed_kv example_kv"
    "num_tokens_in_kv (KVTuple example_kv) (fmt (metadata ?e)) = Inr (hd (shape example_tokens))"
    by (simp_all add: example_engine_simps example_tokens_def tensor_ok_def well_formed_kv_def
        example_kv_def num_tokens_in_kv_def shape_at_def)
  have hs: "prefix_hash example_digest (chunk_loop 2 (elems example_tokens)) 0
              = [''x,xx,'', ''x,xx,xxx,'']"
    by code_simp
  have keys: "?keys = map (\<lambda>h. make_key ?e h (fmt (metadata ?e)))
                (prefix_hash example_digest (chunk_loop (chunk_size ?e) (elems example_tokens)) 0)"
  proof -
    have "make_key ?e h ''vllm'' = example_key h" for h
      using example_engine_simps(3) [of h] by (simp add: make_key_def)
    then show ?thesis by (simp add: hs example_engine_simps)
  qed
  have stacked: "tuple_kv_to_blob example_kv
                   = Inr \<lparr>shape = [1, 2, 3, 1, 1], elems = [11, 12, 13, 21, 22, 23]\<rparr>"
    by code_simp
  have kvs: "chunk_kv 2 \<lparr>shape = [1, 2, 3, 1, 1], elems = [11, 12, 13, 21, 22, 23 :: int]\<rparr> ''vllm''
               = Inr [?c1, ?c2]"
    by code_simp
  have old: "kv_store example_other_backend (example_key ''x,xx,'') = Some \<lparr>shape = [0], elems = []\<rparr>"
    "kv_store example_other_backend (example_key ''x,xx,xxx,'') = Some \<lparr>shape = [0], elems = []\<rparr>"
    by (simp_all add: example_other_backend_def example_key_def)
  have ne: "example_key ''x,xx,'' \<noteq> example_key ''x,xx,xxx,''"
    by (simp add: example_key_def)
  note w1 = store_no_skip_without_skip_existing [OF cs(1), of example_suffix_mask example_digest
      example_tokens4 example_kv2 True 2 "\<lparr>shape = [1, 2, 2, 1, 1], elems = [13, 14, 23, 24]\<rparr>"]
  note w2 = store_no_skip_without_skip_existing [OF cs(2), of example_suffix_mask example_digest
      example_tokens example_kv True 0 "\<lparr>shape = [], elems = []\<rparr>" None ?keys]
  have a: "store example_digest example_engine example_tokens4 example_kv2 (Some example_suffix_mask) False True
       = (Inl (AssertionError []), example_engine)"
    using w1 sk pre blob by blast
  from w2 pre2 keys obtain st kvs' e' where r:
    "tuple_kv_to_blob example_kv = Inr st"
    "chunk_kv (chunk_size ?e) st (fmt (metadata ?e)) = Inr kvs'"
    "store_prepare example_digest ?e example_tokens example_kv None False = Inr (zip ?keys kvs')"
    "store example_digest ?e example_tokens example_kv None False True = (Inr PyNone, e')"
    "\<forall>k. kv_store (engine_backend e') k
           = (case map_of (rev (zip ?keys kvs')) k of
                None \<Rightarrow> kv_store (engine_backend ?e) k
              | Some chunk \<Rightarrow> Some chunk)"
    by blast
  from r(1) stacked have "st = \<lparr>shape = [1, 2, 3, 1, 1], elems = [11, 12, 13, 21, 22, 23]\<rparr>"
    by simp
  with r(2) kvs have k: "kvs' = [?c1, ?c2]"
    by (simp add: example_engine_simps)
  have b: "store_prepare example_digest ?e example_tokens example_kv None False
             = Inr [(example_key ''x,xx,'', ?c1), (example_key ''x,xx,xxx,'', ?c2)]"
    using r(3) k by simp
  have c: "fst (store example_digest ?e example_tokens example_kv None False True) = Inr PyNone"
    using r(4) by simp
  have d: "kv_store (engine_backend (snd (store example_digest ?e example_tokens example_kv None
             False True))) (example_key ''x,xx,'') = Some ?c1"
    "kv_store (engine_backend (snd (store example_digest ?e example_tokens example_kv None
             False True))) (example_key ''x,xx,xxx,'') = Some ?c2"
    using r(4,5) k ne by simp_all
  from cs(1) sk a old b c d show ?thesis by blast
qed


text \<open>
  C4, as amended. For every store call: if the tokens are not one-dimensional, or the
  given mask is not one-dimensional or differs in length from the tokens, or (for a
  positive chunk size) the number of false entries of the mask is not a multiple of
  \<open>chunk_size\<close>, or the number of tokens of the nested KV state is not \<open>len(tokens)\<close>
  minus the number of false entries, then \<open>store\<close> raises an AssertionError and the
  engine, with its backend, is as before. For a suffix mask the number of false entries
  is the length of the leading run of false entries.
\<close>

theorem store_fails_fast:
  assumes "length (shape toks) \<noteq> 1
           \<or> (\<exists>m. msk = Some m \<and> (length (shape m) \<noteq> 1 \<or> hd (shape m) \<noteq> hd (shape toks)))
           \<or> (\<exists>m. msk = Some m \<and> 0 < chunk_size e \<and> \<not> chunk_size e dvd mask_num_skip_tok m)
           \<or> (\<exists>n. 0 < chunk_size e \<and> num_tokens_in_kv (KVTuple kv) (fmt (metadata e)) = Inr n
                  \<and> hd (shape toks) \<noteq> n + (case msk of None \<Rightarrow> 0 | Some m \<Rightarrow> mask_num_skip_tok m))"
  shows "(\<exists>msg. store digest e toks kv msk skip_existing blocking = (Inl (AssertionError msg), e))
       \<and> mask_num_skip_tok \<lparr>shape = [a + b], elems = replicate a False @ replicate b True\<rparr>
           = length (takeWhile Not (replicate a False @ replicate b True))"
proof -
  from store_prepare_checks [OF assms] obtain msg where
    "store_prepare digest e toks kv msk skip_existing = Inl (AssertionError msg)" by blast
  then have "store digest e toks kv msk skip_existing blocking = (Inl (AssertionError msg), e)"
    by (rule store_fail)
  then show ?thesis using suffix_mask_skip [of a b] by auto
qed

theorem store_fails_fast_witness:
  "(\<exists>msg. store example_digest example_engine \<lparr>shape = [1, 3], elems = [1, 2, 3]\<rparr> example_kv None True True
            = (Inl (AssertionError msg), example_engine))
   \<and> (\<exists>msg. store example_digest example_engine example_tokens example_kv (Some example_suffix_mask) True True
            = (Inl (AssertionError msg), example_engine))
   \<and> (\<exists>msg. store example_digest example_engine example_tokens4 example_kv
              (Some \<lparr>shape = [4], elems = [False, True, True, True]\<rparr>) True True
            = (Inl (AssertionError msg), example_engine))
   \<and> (\<exists>msg. store example_digest example_engine example_tokens4 example_kv None True True
            = (Inl (AssertionError msg), example_engine))"
proof -
  have 1: "length (shape \<lparr>shape = [1, 3], elems = [1, 2, 3 :: int]\<rparr>) \<noteq> 1" by simp
  have 2: "hd (shape example_suffix_mask) \<noteq> hd (shape example_tokens)"
    by (simp add: example_suffix_mask_def example_tokens_def)
  have 3: "0 < chunk_size example_engine
      \<and> \<not> chunk_size example_engine dvd mask_num_skip_tok \<lparr>shape = [4], elems = [False, True, True, True]\<rparr>"
    by (simp add: example_engine_simps mask_num_skip_tok_def)
  have 4: "0 < chunk_size example_engine
      \<and> num_tokens_in_kv (KVTuple example_kv) (fmt (metadata example_engine)) = Inr 3
      \<and> hd (shape example_tokens4) \<noteq> 3 + (case None :: bool tensor option of None \<Rightarrow> 0 | Some m \<Rightarrow> mask_num_skip_tok m)"
    by (simp add: example_engine_simps num_tokens_in_kv_def example_kv_def shape_at_def example_tokens4_def)
  have a: "\<exists>msg. store example_digest example_engine \<lparr>shape = [1, 3], elems = [1, 2, 3]\<rparr> example_kv None True True
            = (Inl (AssertionError msg), example_engine)"
    using store_fails_fast [of "\<lparr>shape = [1, 3], elems = [1, 2, 3]\<rparr>" None example_engine example_kv
        example_digest True True 0 0] 1 by blast
  have b: "\<exists>msg. store example_digest example_engine example_tokens example_kv (Some example_suffix_mask) True True
            = (Inl (AssertionError msg), example_engine)"
    using store_fails_fast [of example_tokens "Some example_suffix_mask" example_engine example_kv
        example_digest True True 0 0] 2 by blast
  have c: "\<exists>msg. store example_digest example_engine example_tokens4 example_kv
              (Some \<lparr>shape = [4], elems = [False, True, True, True]\<rparr>) True True
            = (Inl (AssertionError msg), example_engine)"
    using store_fails_fast [of example_tokens4 "Some \<lparr>shape = [4], elems = [False, True, True, True]\<rparr>"
        example_engine example_kv example_digest True True 0 0] 3 by blast
  have d: "\<exists>msg. store example_digest example_engine example_tokens4 example_kv None True True
            = (Inl (AssertionError msg), example_engine)"
    using store_fails_fast [of example_tokens4 None example_engine example_kv
        example_digest True True 0 0] 4 by blast
  from a b c d show ?thesis by blast
qed

text \<open>
  The claim as stated fails for a mask that is not a suffix mask: with chunks of two
  tokens and the mask \<open>[False, True, False, True]\<close> the leading run of false entries
  has length one, no other check fails, and \<open>store\<close> returns and writes a chunk.
\<close>

theorem store_gap_mask_counterexample:
  "length (takeWhile Not (elems example_gap_mask)) = 1
   \<and> \<not> chunk_size example_engine dvd 1
   \<and> length (shape example_tokens4) = 1
   \<and> shape example_gap_mask = shape example_tokens4
   \<and> num_tokens_in_kv (KVTuple example_kv2) (fmt (metadata example_engine))
       = Inr (hd (shape example_tokens4) - length (filter Not (elems example_gap_mask)))
   \<and> fst (store example_digest example_engine example_tokens4 example_kv2 (Some example_gap_mask) True True)
       = Inr PyNone
   \<and> \<not> contains (engine_backend example_engine) (example_key ''x,xx,xxx,xxxx,'')
   \<and> contains (engine_backend (snd (store example_digest example_engine example_tokens4 example_kv2
                                     (Some example_gap_mask) True True)))
        (example_key ''x,xx,xxx,xxxx,'')"
proof -
  have "fst (store example_digest example_engine example_tokens4 example_kv2 (Some example_gap_mask) True True)
       = Inr PyNone"
    by code_simp
  moreover have "contains (engine_backend (snd (store example_digest example_engine example_tokens4 example_kv2
                                     (Some example_gap_mask) True True)))
        (example_key ''x,xx,xxx,xxxx,'')"
    by code_simp
  moreover have "\<not> contains (engine_backend example_engine) (example_key ''x,xx,xxx,xxxx,'')"
    by (simp add: example_engine_def init_attributes_def contains_def)
  ultimately show ?thesis
    by (simp add: example_gap_mask_def example_engine_simps example_tokens4_def example_kv2_def
        num_tokens_in_kv_def shape_at_def)
qed





section \<open>lookup\<close>



lemma make_key_backend: "make_key (e\<lparr>engine_backend := be\<rparr>) h f = make_key e h f"
  by (simp add: make_key_def)



section \<open>retrieve\<close>

lemma take_hits_eq:
  "take_hits (map (kv_store be) ks) = map (the \<circ> kv_store be) (takeWhile (contains be) ks)"
  by (induction ks) (auto simp: contains_def)

lemma take_hits_comp:
  "take_hits (map (kv_store be \<circ> f) xs) = map (the \<circ> kv_store be) (takeWhile (contains be) (map f xs))"
  using take_hits_eq [of be "map f xs"] by simp

lemma takeWhile_agree:
  "(\<forall>x \<in> set (take (Suc (length (takeWhile P xs))) xs). Q x = P x) \<Longrightarrow>
   takeWhile Q xs = takeWhile P xs"
  by (induction xs) auto

lemma takeWhile_in_take:
  "set (takeWhile P xs) \<subseteq> set (take (Suc (length (takeWhile P xs))) xs)"
  by (induction xs) auto

lemma set_false_from_0: "set_false_from 0 xs = replicate (length xs) False"
  by (simp add: set_false_from_def)

lemma set_false_upto_length: "length (set_false_upto k xs) = length xs"
  by (simp add: set_false_upto_def)

lemma ret_mask_eq:
  "set_false_from (nst + rtc) (set_false_upto nst (replicate n True))
     = map (\<lambda>i. nst \<le> i \<and> i < nst + rtc) [0..<n]"
  by (rule nth_equalityI)
    (auto simp: set_false_from_def set_false_upto_def nth_append min_def)

lemma retrieve_hits_value:
  assumes "0 < chunk_size e" "fmt_dim (fmt (metadata e)) = Inr d"
  shows "retrieve_hits digest e toks msk =
     Inr (case msk of None \<Rightarrow> 0 | Some m \<Rightarrow> list_num_skip_tok m,
          case msk of None \<Rightarrow> 0 | Some m \<Rightarrow> list_num_skip_tok m div chunk_size e,
          d,
          map (the \<circ> kv_store (engine_backend e))
            (takeWhile (contains (engine_backend e))
               (map (\<lambda>h. make_key e h (fmt (metadata e)))
                  (prefix_hash digest (chunk_loop (chunk_size e) toks)
                     (case msk of None \<Rightarrow> 0 | Some m \<Rightarrow> list_num_skip_tok m div chunk_size e)))))"
  using assms
  by (cases msk)
    (simp_all add: retrieve_hits_def Let_def chunk_tokens_def tensor_floordiv_def batched_get_def
      take_hits_comp)

lemma retrieve_result_only_hits:
  assumes rh: "retrieve_hits digest e toks msk = Inr (a, b, d, chunks)"
    and rh2: "retrieve_hits digest e2 toks msk = Inr (a, b, d, chunks)"
    and same: "chunk_size e2 = chunk_size e" "metadata e2 = metadata e"
      "miss_tokens_count e2 = miss_tokens_count e" "hit_tokens_count e2 = hit_tokens_count e"
  shows "fst (retrieve digest e2 toks msk rt) = fst (retrieve digest e toks msk rt)"
proof -
  have "retrieve_concat e2 a b d chunks rt = retrieve_concat e a b d chunks rt"
    using same by (simp add: retrieve_concat_def)
  then show ?thesis
    using same by (simp add: retrieve_def rh rh2 Let_def split: sum.splits prod.splits)
qed

lemma length5:
  "length (s :: nat list) = 5 \<Longrightarrow> \<exists>l t x y z. s = [l, t, x, y, z]"
  by (auto simp: length_Suc_conv eval_nat_numeral)

lemma first_piece:
  assumes "0 < cs" "d < length (shape c0)"
  shows "\<exists>pieces. bind_err (slice_from d start c0) (\<lambda>t. torch_split t cs d) = Inr pieces
           \<and> (case pieces of [] \<Rightarrow> Inl IndexError | piece # _ \<Rightarrow> Inr piece)
               = Inr (narrow d 0 (min cs (shape c0 ! d - start))
                        (narrow d (min start (shape c0 ! d)) (shape c0 ! d - min start (shape c0 ! d)) c0))"
proof -
  let ?n = "shape c0 ! d"
  let ?t = "narrow d (min start ?n) (?n - min start ?n) c0"
  have sl: "slice_from d start c0 = Inr ?t"
    using assms by (simp add: slice_from_def Let_def)
  have n': "shape ?t ! d = ?n - start"
    using assms by (simp add: narrow_shape min_def)
  let ?k = "max 1 ((?n - start + cs - 1) div cs)"
  have "[0..<?k] = 0 # [1..<?k]"
    by (simp add: upt_rec)
  then have "torch_split ?t cs d
      = Inr (narrow d 0 (min cs (?n - start)) ?t
             # map (\<lambda>i. narrow d (i * cs) (min cs (?n - start - i * cs)) ?t) [1..<?k])"
    using assms(1) n' by (simp add: torch_split_def Let_def)
  with sl show ?thesis by simp
qed


lemma torch_cat_ok:
  assumes "length (shape p) = 5" "d < 5"
    and "\<forall>c \<in> set rest. (shape c)[d := 0] = (shape p)[d := 0]"
  shows "\<exists>catted. torch_cat (p # rest) d = Inr catted
           \<and> shape catted = (shape p)[d := sum_list (map (\<lambda>u. shape u ! d) (p # rest))]"
proof -
  have len: "\<forall>c \<in> set rest. length (shape c) = 5"
  proof
    fix c assume "c \<in> set rest"
    with assms(3) have "length ((shape c)[d := 0]) = length ((shape p)[d := 0])" by simp
    with assms(1) show "length (shape c) = 5" by simp
  qed
  have "\<forall>c \<in> set (p # rest). shape c \<noteq> [0]"
    using len assms(1) by auto
  then have "filter (\<lambda>u. shape u \<noteq> [0]) (p # rest) = p # rest"
    by (simp only: filter_id_conv)
  then show ?thesis
    using assms by (simp add: torch_cat_def Let_def list_all_iff del: filter.simps)
qed

lemma blob_to_tuple_kv_ok:
  assumes "shape catted = [l, 2, x, y, z]"
  shows "\<exists>ret. blob_to_tuple_kv catted = Inr ret \<and> (\<forall>(k, v) \<in> set ret. shape k = [x, y, z])"
proof -
  let ?inner = "\<lambda>i. \<lparr>shape = [2, x, y, z], elems = block (prod_list [2, x, y, z]) i (elems catted)\<rparr>"
  let ?kv = "\<lambda>i. (\<lparr>shape = [x, y, z], elems = block (prod_list [x, y, z]) 0 (elems (?inner i))\<rparr>,
                  \<lparr>shape = [x, y, z], elems = block (prod_list [x, y, z]) 1 (elems (?inner i))\<rparr>)"
  have unb: "torch_unbind0 catted = Inr (map ?inner [0..<l])"
    using assms by (simp add: torch_unbind0_def)
  have "collect (\<lambda>inner_tensor.
                  bind_err (index0 inner_tensor 0) (\<lambda>k.
                  bind_err (index0 inner_tensor 1) (\<lambda>v. Inr (k, v)))) (map ?inner [0..<l])
        = Inr (map ?kv [0..<l])"
    by (rule collect_map_Inr) (simp add: index0_def)
  then have "blob_to_tuple_kv catted = Inr (map ?kv [0..<l])"
    by (simp add: blob_to_tuple_kv_def unb)
  then show ?thesis by auto
qed

lemma retrieve_concat_ok:
  assumes cs: "0 < chunk_size e" and f: "fmt_dim (fmt (metadata e)) = Inr tdim"
    and ne: "chunks \<noteq> []" and ok: "kv_chunks_ok (tdim + 2) chunks"
  shows "\<exists>ret rtc. retrieve_concat e a b tdim chunks rt = Inr (ret, rtc)"
proof -
  obtain c0 rest where ch: "chunks = c0 # rest" using ne by (cases chunks) auto
  from ok ch have l5: "length (shape c0) = 5" and two: "shape c0 ! 1 = 2"
    and ag: "\<forall>c \<in> set rest. (shape c)[tdim + 2 := 0] = (shape c0)[tdim + 2 := 0]"
    by (auto simp: kv_chunks_ok_def list_all_iff)
  from f have fd: "(fmt (metadata e) = ''vllm'' \<and> tdim = 0) \<or> (fmt (metadata e) = ''huggingface'' \<and> tdim = 1)"
    by (auto simp: fmt_dim_def split: if_splits)
  then have d5: "tdim + 2 < 5" by auto
  let ?d = "tdim + 2"
  let ?p = "narrow ?d 0 (min (chunk_size e) (shape c0 ! ?d - (a - b * chunk_size e)))
              (narrow ?d (min (a - b * chunk_size e) (shape c0 ! ?d))
                 (shape c0 ! ?d - min (a - b * chunk_size e) (shape c0 ! ?d)) c0)"
  have sk: "slice_kv_at (chunk_size e) (a - b * chunk_size e) c0 (fmt (metadata e))
              = bind_err (slice_from ?d (a - b * chunk_size e) c0) (\<lambda>t. torch_split t (chunk_size e) ?d)"
    using fd by (auto simp: slice_kv_at_def numeral_3_eq_3 numeral_2_eq_2)
  from first_piece [OF cs, of ?d c0 "a - b * chunk_size e"] d5 l5
  obtain pieces where pc: "slice_kv_at (chunk_size e) (a - b * chunk_size e) c0 (fmt (metadata e)) = Inr pieces"
    "(case pieces of [] \<Rightarrow> Inl IndexError | piece # _ \<Rightarrow> Inr piece) = Inr ?p"
    unfolding sk by auto
  have shp: "shape ?p = (shape c0)[?d := min (chunk_size e) (shape c0 ! ?d - (a - b * chunk_size e))]"
    by (simp add: narrow_shape)
  then have p5: "length (shape ?p) = 5" using l5 by simp
  have agp: "\<forall>c \<in> set rest. (shape c)[?d := 0] = (shape ?p)[?d := 0]"
    using ag shp by simp
  from torch_cat_ok [OF p5 d5 agp] obtain catted where
    cat: "torch_cat (?p # rest) ?d = Inr catted"
    and shc: "shape catted = (shape ?p)[?d := sum_list (map (\<lambda>u. shape u ! ?d) (?p # rest))]"
    by blast
  from length5 [OF l5] obtain l t x y z where s0: "shape c0 = [l, t, x, y, z]" by blast
  with two have t2: "t = 2" by simp
  from shc shp s0 t2 fd obtain x' y' where sc: "shape catted = [l, 2, x', y', z]"
    by auto
  show ?thesis
  proof (cases rt)
    case True
    from blob_to_tuple_kv_ok [OF sc] obtain ret where
      r: "blob_to_tuple_kv catted = Inr ret" "\<forall>(k, v) \<in> set ret. shape k = [x', y', z]" by blast
    have "\<exists>rtc. (case ret of [] \<Rightarrow> Inr 0 | (k, v) # _ \<Rightarrow> shape_at k tdim) = Inr rtc"
      using r(2) fd by (cases ret) (auto simp: shape_at_def)
    then obtain rtc where "(case ret of [] \<Rightarrow> Inr 0 | (k, v) # _ \<Rightarrow> shape_at k tdim) = Inr rtc" ..
    with True r(1) cat pc ch show ?thesis
      by (simp add: retrieve_concat_def Let_def)
  next
    case False
    have "\<exists>rtc. (if numel catted = 0 then Inr 0 else shape_at catted (tdim + 2)) = Inr rtc"
      using sc d5 by (simp add: shape_at_def)
    then obtain rtc where "(if numel catted = 0 then Inr 0 else shape_at catted (tdim + 2)) = Inr rtc" ..
    with False cat pc ch show ?thesis
      by (simp add: retrieve_concat_def Let_def)
  qed
qed


lemma retrieve_concat_count:
  assumes "retrieve_concat e a b tdim chunks rt = Inr (ret, rtc)"
  shows "(case ret of
            KVTuple kvs \<Rightarrow> rt \<and> (case kvs of [] \<Rightarrow> Inr 0 | (k, v) # _ \<Rightarrow> shape_at k tdim) = Inr rtc
          | KVBlob t \<Rightarrow> \<not> rt \<and> (if numel t = 0 then Inr 0 else shape_at t (tdim + 2)) = Inr rtc)"
  using assms
  by (auto simp: retrieve_concat_def Let_def dest!: bind_err_Inr split: if_splits)

lemma retrieve_value:
  assumes rh: "retrieve_hits digest e toks msk = Inr (a, b, d, chunks)"
    and ne: "chunks \<noteq> []"
    and rc: "retrieve_concat e a b d chunks rt = Inr (ret, rtc)"
  shows "fst (retrieve digest e toks msk rt) =
           (if miss_tokens_count e + hit_tokens_count e + int rtc = 0 then Inl ZeroDivisionError
            else Inr (ret, map (\<lambda>i. a \<le> i \<and> i < a + rtc) [0..<length toks]))"
  using ne by (simp add: retrieve_def rh rc Let_def ret_mask_eq add.assoc)

text \<open>
  What \<open>retrieve\<close> does on every token sequence, optional mask and backend state, for
  a positive chunk size and a valid format. It looks the chunk keys up in chunk order,
  without the chunks the mask leaves out, and keeps the run of chunks before the first
  key the backend does not contain (\<open>hits\<close>). When the run is empty it returns the
  empty tuple and an all-false mask. Otherwise a returned KV state is built from the
  chunks of that run and nothing else, and a returned mask is true exactly on the
  positions \<open>[num_skip_tok, num_skip_tok + retrieved_token_count)\<close> of the tokens. The
  outcome is the same for every backend that agrees on the keys up to and including the
  first miss. When the chunks of the run are five-dimensional and agree outside the
  token axis, the outcome is that result, or a ZeroDivisionError when both counters and
  the retrieved token count are zero.
\<close>

lemma retrieve_prefix_run:
  assumes cs: "0 < chunk_size e" and f: "fmt_dim (fmt (metadata e)) = Inr tdim"
    and nst: "nst = (case msk of None \<Rightarrow> 0 | Some m \<Rightarrow> list_num_skip_tok m)"
    and nsc: "nsc = (case msk of None \<Rightarrow> 0 | Some m \<Rightarrow> list_num_skip_tok m div chunk_size e)"
    and keys: "keys = map (\<lambda>h. make_key e h (fmt (metadata e)))
                         (prefix_hash digest (chunk_loop (chunk_size e) toks) nsc)"
    and hits: "hits = takeWhile (contains (engine_backend e)) keys"
    and chunks: "chunks = map (the \<circ> kv_store (engine_backend e)) hits"
  shows "(hits = [] \<longrightarrow>
            retrieve digest e toks msk return_tuple
              = (Inr (KVTuple [], replicate (length toks) False),
                 e\<lparr>miss_tokens_count := miss_tokens_count e + int (length toks)\<rparr>))
       \<and> (hits \<noteq> [] \<longrightarrow>
            (\<forall>ret ret_mask e'. retrieve digest e toks msk return_tuple = (Inr (ret, ret_mask), e') \<longrightarrow>
               (\<exists>rtc. retrieve_concat e nst nsc tdim chunks return_tuple = Inr (ret, rtc)
                  \<and> (case ret of
                        KVTuple kvs \<Rightarrow> (case kvs of [] \<Rightarrow> Inr 0 | (k, v) # _ \<Rightarrow> shape_at k tdim) = Inr rtc
                      | KVBlob t \<Rightarrow> (if numel t = 0 then Inr 0 else shape_at t (tdim + 2)) = Inr rtc)
                  \<and> ret_mask = map (\<lambda>i. nst \<le> i \<and> i < nst + rtc) [0..<length toks])))
       \<and> (\<forall>be. (\<forall>k \<in> set (take (Suc (length hits)) keys).
                    kv_store be k = kv_store (engine_backend e) k)
              \<longrightarrow> fst (retrieve digest (e\<lparr>engine_backend := be\<rparr>) toks msk return_tuple)
                    = fst (retrieve digest e toks msk return_tuple))
       \<and> (hits \<noteq> [] \<and> kv_chunks_ok (tdim + 2) chunks \<longrightarrow>
            (\<exists>ret rtc. retrieve_concat e nst nsc tdim chunks return_tuple = Inr (ret, rtc)
               \<and> fst (retrieve digest e toks msk return_tuple)
                   = (if miss_tokens_count e + hit_tokens_count e + int rtc = 0
                      then Inl ZeroDivisionError
                      else Inr (ret, map (\<lambda>i. nst \<le> i \<and> i < nst + rtc) [0..<length toks]))))"
proof -
  have rh: "retrieve_hits digest e toks msk = Inr (nst, nsc, tdim, chunks)"
    using retrieve_hits_value [OF cs f, of digest toks msk] nst nsc keys hits chunks by simp
  have empty: "retrieve digest e toks msk return_tuple
              = (Inr (KVTuple [], replicate (length toks) False),
                 e\<lparr>miss_tokens_count := miss_tokens_count e + int (length toks)\<rparr>)"
    if "hits = []"
    using that chunks by (simp add: retrieve_def rh Let_def set_false_from_0 set_false_upto_length)
  have nonempty: "\<exists>rtc. retrieve_concat e nst nsc tdim chunks return_tuple = Inr (ret, rtc)
                  \<and> (case ret of
                        KVTuple kvs \<Rightarrow> (case kvs of [] \<Rightarrow> Inr 0 | (k, v) # _ \<Rightarrow> shape_at k tdim) = Inr rtc
                      | KVBlob t \<Rightarrow> (if numel t = 0 then Inr 0 else shape_at t (tdim + 2)) = Inr rtc)
                  \<and> ret_mask = map (\<lambda>i. nst \<le> i \<and> i < nst + rtc) [0..<length toks]"
    if "hits \<noteq> []" and r: "retrieve digest e toks msk return_tuple = (Inr (ret, ret_mask), e')"
    for ret ret_mask e'
  proof -
    from that chunks have ne: "chunks \<noteq> []" by simp
    from r ne obtain rtc where
      rc: "retrieve_concat e nst nsc tdim chunks return_tuple = Inr (ret, rtc)"
      and m: "ret_mask = set_false_from (nst + rtc) (set_false_upto nst (replicate (length toks) True))"
      by (auto simp: retrieve_def rh Let_def split: sum.splits prod.splits if_splits)
    from retrieve_concat_count [OF rc] have
      "(case ret of
          KVTuple kvs \<Rightarrow> (case kvs of [] \<Rightarrow> Inr 0 | (k, v) # _ \<Rightarrow> shape_at k tdim) = Inr rtc
        | KVBlob t \<Rightarrow> (if numel t = 0 then Inr 0 else shape_at t (tdim + 2)) = Inr rtc)"
      by (cases ret) simp_all
    with rc m show ?thesis by (simp add: ret_mask_eq)
  qed
  have indep: "fst (retrieve digest (e\<lparr>engine_backend := be\<rparr>) toks msk return_tuple)
                 = fst (retrieve digest e toks msk return_tuple)"
    if ag: "\<forall>k \<in> set (take (Suc (length hits)) keys). kv_store be k = kv_store (engine_backend e) k"
    for be
  proof -
    let ?e2 = "e\<lparr>engine_backend := be\<rparr>"
    have "\<forall>k \<in> set (take (Suc (length (takeWhile (contains (engine_backend e)) keys))) keys).
            contains be k = contains (engine_backend e) k"
      using ag hits by (simp add: contains_def)
    then have tw: "takeWhile (contains be) keys = hits"
      unfolding hits by (rule takeWhile_agree)
    have "set hits \<subseteq> set (take (Suc (length hits)) keys)"
      unfolding hits by (rule takeWhile_in_take)
    with ag have "map (the \<circ> kv_store be) hits = map (the \<circ> kv_store (engine_backend e)) hits"
      by auto
    with tw have "retrieve_hits digest ?e2 toks msk = Inr (nst, nsc, tdim, chunks)"
      using retrieve_hits_value [of ?e2 tdim digest toks msk] cs f chunks nst nsc keys
      by (cases msk) (simp_all add: make_key_backend)
    from retrieve_result_only_hits [OF rh this, of return_tuple]
    show ?thesis by simp
  qed
  have total: "\<exists>ret rtc. retrieve_concat e nst nsc tdim chunks return_tuple = Inr (ret, rtc)
               \<and> fst (retrieve digest e toks msk return_tuple)
                   = (if miss_tokens_count e + hit_tokens_count e + int rtc = 0
                      then Inl ZeroDivisionError
                      else Inr (ret, map (\<lambda>i. nst \<le> i \<and> i < nst + rtc) [0..<length toks]))"
    if "hits \<noteq> []" "kv_chunks_ok (tdim + 2) chunks"
  proof -
    from that chunks have ne: "chunks \<noteq> []" by simp
    from retrieve_concat_ok [OF cs f ne that(2), of nst nsc return_tuple]
    obtain ret rtc where rc: "retrieve_concat e nst nsc tdim chunks return_tuple = Inr (ret, rtc)"
      by blast
    from retrieve_value [OF rh ne rc] rc show ?thesis by blast
  qed
  from empty nonempty indep total show ?thesis by blast
qed

lemma example_stored_simps:
  "chunk_size example_stored = 2" "fmt (metadata example_stored) = ''vllm''"
  "fmt_dim (fmt (metadata example_stored)) = Inr 0"
  "chunk_size example_gap_engine = 2" "fmt (metadata example_gap_engine) = ''vllm''"
  "fmt_dim (fmt (metadata example_gap_engine)) = Inr 0"
  by (simp_all add: example_stored_def example_gap_engine_def example_engine_def init_attributes_def
      example_config_def example_metadata_def fmt_dim_def)

lemma retrieve_prefix_run_examples:
  "fst (retrieve example_digest example_stored [9, 9] None True) = Inr (KVTuple [], [False, False])
   \<and> fst (retrieve example_digest example_gap_engine [1, 2, 3] None True)
       = Inr (KVTuple [], [False, False, False])
   \<and> contains (engine_backend example_gap_engine) (example_key ''x,xx,xxx,'')
   \<and> fst (retrieve example_digest example_stored [1, 2, 3] None True)
       = Inr (KVTuple example_kv, [True, True, True])
   \<and> fst (retrieve example_digest example_stored [1, 2, 4] None True)
       = Inr (KVTuple [(\<lparr>shape = [2, 1, 1], elems = [11, 12]\<rparr>, \<lparr>shape = [2, 1, 1], elems = [21, 22]\<rparr>)],
              [True, True, False])
   \<and> fst (retrieve example_digest example_stored [1, 2, 3]
             (Some [False, True, True]) False)
       = Inr (KVBlob \<lparr>shape = [1, 2, 2, 1, 1], elems = [12, 13, 22, 23]\<rparr>, [False, True, True])"
proof -
  have cs: "0 < chunk_size example_stored" "0 < chunk_size example_gap_engine"
    by (simp_all add: example_stored_simps)
  have h1: "takeWhile (contains (engine_backend example_stored))
              (map (\<lambda>h. make_key example_stored h (fmt (metadata example_stored)))
                 (prefix_hash example_digest (chunk_loop (chunk_size example_stored) [9, 9]) 0)) = []"
    by code_simp
  have h2: "takeWhile (contains (engine_backend example_gap_engine))
              (map (\<lambda>h. make_key example_gap_engine h (fmt (metadata example_gap_engine)))
                 (prefix_hash example_digest (chunk_loop (chunk_size example_gap_engine) [1, 2, 3]) 0)) = []"
    by code_simp
  from retrieve_prefix_run [OF cs(1) example_stored_simps(3), of 0 None 0 _ example_digest "[9, 9]"
      "[]" "[]" True] h1
  have a: "fst (retrieve example_digest example_stored [9, 9] None True) = Inr (KVTuple [], [False, False])"
    by (simp add: numeral_2_eq_2)
  from retrieve_prefix_run [OF cs(2) example_stored_simps(6), of 0 None 0 _ example_digest "[1, 2, 3]"
      "[]" "[]" True] h2
  have b: "fst (retrieve example_digest example_gap_engine [1, 2, 3] None True)
       = Inr (KVTuple [], [False, False, False])"
    by (simp add: numeral_3_eq_3)
  have c: "contains (engine_backend example_gap_engine) (example_key ''x,xx,xxx,'')"
    by (simp add: example_gap_engine_def contains_def)
  have d: "fst (retrieve example_digest example_stored [1, 2, 3] None True)
       = Inr (KVTuple example_kv, [True, True, True])"
    by code_simp
  have e: "fst (retrieve example_digest example_stored [1, 2, 4] None True)
       = Inr (KVTuple [(\<lparr>shape = [2, 1, 1], elems = [11, 12]\<rparr>, \<lparr>shape = [2, 1, 1], elems = [21, 22]\<rparr>)],
              [True, True, False])"
    by code_simp
  have g: "fst (retrieve example_digest example_stored [1, 2, 3]
             (Some [False, True, True]) False)
       = Inr (KVBlob \<lparr>shape = [1, 2, 2, 1, 1], elems = [12, 13, 22, 23]\<rparr>, [False, True, True])"
    by code_simp
  from a b c d e g show ?thesis by blast
qed

text \<open>
  C1. \<open>retrieve\<close> does not return a mask for every token sequence, mask and backend
  state. On the engine that holds both chunks of the tokens 1, 2, 3 (chunks of two
  tokens) and whose counters are zero, \<^verbatim>\<open>retrieve([1, 2, 3], mask=[False, False, False])\<close>
  has \<open>num_skip_tok = 3\<close> and \<open>num_skip_chunk = 1\<close>; the key of the second chunk is
  looked up and hit, and the chunk is trimmed by one token to no token at all, so
  \<open>retrieved_token_count\<close> is 0. The hit branch then divides \<open>hit_tokens_count\<close> by
  \<open>miss_tokens_count + hit_tokens_count\<close>, which is 0 / 0: the call raises
  ZeroDivisionError, for either value of \<open>return_tuple\<close>, where the claim has it return
  a mask that is false everywhere.
\<close>

theorem retrieve_all_masked_raises:
  "miss_tokens_count example_stored = 0 \<and> hit_tokens_count example_stored = 0
   \<and> batched_get (engine_backend example_stored) [example_key ''x,xx,'', example_key ''x,xx,xxx,'']
       = [Some \<lparr>shape = [1, 2, 2, 1, 1], elems = [11, 12, 21, 22]\<rparr>,
          Some \<lparr>shape = [1, 2, 1, 1, 1], elems = [13, 23]\<rparr>]
   \<and> retrieve_hits example_digest example_stored [1, 2, 3] (Some [False, False, False])
       = Inr (3, 1, 0, [\<lparr>shape = [1, 2, 1, 1, 1], elems = [13, 23]\<rparr>])
   \<and> retrieve_concat example_stored 3 1 0 [\<lparr>shape = [1, 2, 1, 1, 1], elems = [13, 23]\<rparr>] True
       = Inr (KVTuple [(\<lparr>shape = [0, 1, 1], elems = []\<rparr>, \<lparr>shape = [0, 1, 1], elems = []\<rparr>)], 0)
   \<and> fst (retrieve example_digest example_stored [1, 2, 3] (Some [False, False, False]) True)
       = Inl ZeroDivisionError
   \<and> fst (retrieve example_digest example_stored [1, 2, 3] (Some [False, False, False]) False)
       = Inl ZeroDivisionError"
  by code_simp

text \<open>
  C6. After every retrieve call, zero-hit calls included, \<open>hit_rate\<close> should equal
  \<open>hit_tokens_count / (miss_tokens_count + hit_tokens_count)\<close>. The zero-hit path adds to
  the miss counter and returns before the hit rate is computed: after a retrieve of the
  three stored tokens (3 hits, rate 1) and a retrieve of two unknown tokens, the
  counters are 3 and 2 and the hit rate is still 1, not 3/5.
\<close>

theorem retrieve_zero_hit_stale_hit_rate:
  "hit_tokens_count (snd (retrieve example_digest example_stored [1, 2, 3] None True)) = 3
   \<and> miss_tokens_count (snd (retrieve example_digest example_stored [1, 2, 3] None True)) = 0
   \<and> hit_rate (snd (retrieve example_digest example_stored [1, 2, 3] None True)) = 1
   \<and> fst (retrieve example_digest (snd (retrieve example_digest example_stored [1, 2, 3] None True))
             [9, 9] None True) = Inr (KVTuple [], [False, False])
   \<and> hit_tokens_count (snd (retrieve example_digest
         (snd (retrieve example_digest example_stored [1, 2, 3] None True)) [9, 9] None True)) = 3
   \<and> miss_tokens_count (snd (retrieve example_digest
         (snd (retrieve example_digest example_stored [1, 2, 3] None True)) [9, 9] None True)) = 2
   \<and> hit_rate (snd (retrieve example_digest
         (snd (retrieve example_digest example_stored [1, 2, 3] None True)) [9, 9] None True)) = 1
   \<and> hit_rate (snd (retrieve example_digest
         (snd (retrieve example_digest example_stored [1, 2, 3] None True)) [9, 9] None True)) \<noteq> 3 / (2 + 3)"
  by code_simp


section \<open>The engine registry\<close>

lemma get_or_create_existing:
  assumes "instances cls i = Some a" "cfgs cls i = Some cfg" "metadatas cls i = Some md"
  shows "get_or_create create cls i cfg md = (Inr a, cls)"
  using assms by (simp add: get_or_create_def)

lemma get_or_create_mismatch:
  assumes "builder_ok cls" "instances cls i = Some a"
    and "cfgs cls i \<noteq> Some cfg \<or> metadatas cls i \<noteq> Some md"
  shows "\<exists>msg. get_or_create create cls i cfg md = (Inl (ValueError msg), cls)"
proof -
  from assms(1,2) have "i \<in> dom (cfgs cls)" "i \<in> dom (metadatas cls)"
    by (auto simp: builder_ok_def)
  then obtain c m where "cfgs cls i = Some c" "metadatas cls i = Some m" by auto
  with assms(2,3) show ?thesis
    by (auto simp: get_or_create_def)
qed

text \<open>The call of \<^verbatim>\<open>Tracker\<close> in the constructor passes four arguments for five parameters.\<close>

lemma tracker_init_4: "tracker_init 4 = Inl TypeError"
  by (simp add: tracker_init_def tracker_params_def)

lemma new_engine_tracker:
  "new_engine create cfg md True
     = (case create cfg md of Inl er \<Rightarrow> Inl er | Inr created \<Rightarrow> Inl TypeError)"
  by (cases "create cfg md") (simp_all add: new_engine_def tracker_init_4)

lemma new_engine_no_tracker:
  "new_engine create cfg md False
     = (case create cfg md of Inl er \<Rightarrow> Inl er | Inr created \<Rightarrow> Inr (init_attributes cfg md created))"
  by (cases "create cfg md") (simp_all add: new_engine_def)

lemma get_or_create_new:
  assumes "instances cls i = None"
  shows "get_or_create create cls i cfg md =
           (Inl (case create cfg md of Inl er \<Rightarrow> er | Inr created \<Rightarrow> TypeError), cls)"
  using assms by (cases "create cfg md") (simp_all add: get_or_create_def new_engine_tracker)

lemma get_or_create_ok:
  assumes "builder_ok cls"
  shows "builder_ok (snd (get_or_create create cls i cfg md))"
proof (cases "instances cls i")
  case None
  with assms show ?thesis by (simp add: get_or_create_new)
next
  case (Some a)
  with assms show ?thesis
    by (auto simp: get_or_create_def split: option.splits)
qed

lemma destroy_absent: "instances cls i = None \<Longrightarrow> destroy cls i = cls"
  by (simp add: destroy_def)

lemma destroy_ok:
  assumes "builder_ok cls"
  shows "builder_ok (destroy cls i)"
proof (cases "instances cls i")
  case None
  with assms show ?thesis by (simp add: destroy_def)
next
  case (Some a)
  have "ran ((instances cls)(i := None)) \<subseteq> ran (instances cls)"
    by (auto simp: ran_def split: if_splits)
  moreover have "a \<in> dom (heap cls)"
    using assms Some by (auto simp: builder_ok_def ran_def)
  ultimately show ?thesis
    using assms Some by (auto simp: destroy_def builder_ok_def split: if_splits)
qed


lemma empty_builder_ok: "builder_ok empty_builder"
  by (simp add: builder_ok_def empty_builder_def)

lemma destroy_registered:
  assumes "instances cls i = Some a" "heap cls a = Some en"
  shows "heap (destroy cls i) = (heap cls)(a \<mapsto> close en)
       \<and> closed (engine_backend (close en))
       \<and> instances (destroy cls i) = (instances cls)(i := None)
       \<and> cfgs (destroy cls i) = (cfgs cls)(i := None)
       \<and> metadatas (destroy cls i) = (metadatas cls)(i := None)
       \<and> builder_get (destroy cls i) i = None"
  using assms by (simp add: destroy_def close_def backend_close_def builder_get_def)

lemma example_engine_constructed:
  "new_engine example_create example_config example_metadata False = Inr example_engine"
  by (simp add: new_engine_no_tracker example_create_def example_engine_def)

lemma example_builder_ok: "builder_ok example_builder"
  by (simp add: builder_ok_def example_builder_def)

lemma example_builder_registered:
  "get_or_create example_create example_builder ''a'' example_config example_metadata
     = (Inr 0, example_builder)
   \<and> (\<exists>msg. get_or_create example_create example_builder ''a''
               (example_config\<lparr>config_chunk_size := 256\<rparr>) example_metadata
             = (Inl (ValueError msg), example_builder))
   \<and> builder_get example_builder ''a'' = Some 0
   \<and> builder_get example_builder ''b'' = None
   \<and> destroy example_builder ''b'' = example_builder
   \<and> heap (destroy example_builder ''a'') = [0 \<mapsto> close example_engine]
   \<and> closed (engine_backend (close example_engine))
   \<and> builder_get (destroy example_builder ''a'') ''a'' = None"
proof -
  have f: "instances example_builder ''a'' = Some 0" "cfgs example_builder ''a'' = Some example_config"
    "metadatas example_builder ''a'' = Some example_metadata" "instances example_builder ''b'' = None"
    "heap example_builder 0 = Some example_engine"
    "cfgs example_builder ''a'' \<noteq> Some (example_config\<lparr>config_chunk_size := 256\<rparr>)"
    by (simp_all add: example_builder_def example_config_def)
  have g1: "get_or_create example_create example_builder ''a'' example_config example_metadata
       = (Inr 0, example_builder)"
    using f by (simp add: get_or_create_existing)
  have g2: "\<exists>msg. get_or_create example_create example_builder ''a''
               (example_config\<lparr>config_chunk_size := 256\<rparr>) example_metadata
             = (Inl (ValueError msg), example_builder)"
    by (rule get_or_create_mismatch [OF example_builder_ok f(1)]) (simp add: f(6))
  have g4: "destroy example_builder ''b'' = example_builder"
    using f by (simp add: destroy_absent)
  have g5: "heap (destroy example_builder ''a'') = [0 \<mapsto> close example_engine]
     \<and> closed (engine_backend (close example_engine))
     \<and> builder_get (destroy example_builder ''a'') ''a'' = None"
    using destroy_registered [OF f(1) f(5)] by (simp add: example_builder_def)
  show ?thesis
    using g1 g2 g4 g5 f by (simp add: builder_get_def)
qed

text \<open>
  C7. On the registry with no engine, \<^verbatim>\<open>get_or_create("a", config, metadata)\<close> does not
  construct, register and return an engine. The backend is created, and the
  constructor then raises a TypeError from its call of \<^verbatim>\<open>Tracker\<close>, which passes four
  arguments for five parameters; \<^verbatim>\<open>get_or_create\<close> raises it before the assignments to
  the three dictionaries, so the registry is left empty and \<^verbatim>\<open>get("a")\<close> is None
  afterwards. The constructor called with \<^verbatim>\<open>tracker=False\<close> returns the engine.
\<close>

theorem get_or_create_fresh_id_raises:
  "example_create example_config example_metadata = Inr \<lparr>kv_store = Map.empty, closed = False\<rparr>
   \<and> builder_get (empty_builder :: int lmcache_engine_builder) ''a'' = None
   \<and> get_or_create example_create empty_builder ''a'' example_config example_metadata
       = (Inl TypeError, empty_builder)
   \<and> builder_get (snd (get_or_create example_create empty_builder ''a'' example_config
                         example_metadata)) ''a'' = None
   \<and> new_engine example_create example_config example_metadata True = Inl TypeError
   \<and> new_engine example_create example_config example_metadata False = Inr example_engine"
proof -
  have c: "example_create example_config example_metadata
             = Inr \<lparr>kv_store = Map.empty, closed = False\<rparr>"
    by (simp add: example_create_def)
  have n: "builder_get (empty_builder :: int lmcache_engine_builder) ''a'' = None"
    by (simp add: builder_get_def empty_builder_def)
  have g: "get_or_create example_create empty_builder ''a'' example_config example_metadata
       = (Inl TypeError, empty_builder)"
    using n c by (simp add: get_or_create_new builder_get_def)
  have t: "new_engine example_create example_config example_metadata True = Inl TypeError"
    by (simp add: new_engine_tracker c)
  from c n g t example_engine_constructed show ?thesis
    by simp
qed

section \<open>Dropping separators\<close>

lemma scan_spt_Nil: "scan_spt spt [] cleaned indices = (cleaned, indices)"
  by (simp add: scan_spt.simps)

lemma scan_spt_sep:
  "spt \<noteq> [] \<Longrightarrow>
   scan_spt spt (spt @ rest) cleaned indices =
     scan_spt spt rest cleaned (if rest = [] then indices else indices @ [length cleaned])"
  by (subst scan_spt.simps) (simp add: Let_def)

lemma scan_spt_keep:
  "\<not> occurs_at spt (x # xs) 0 \<Longrightarrow>
   scan_spt spt (x # xs) cleaned indices = scan_spt spt xs (cleaned @ [x]) indices"
proof -
  assume h: "\<not> occurs_at spt (x # xs) 0"
  have "\<not> (spt \<noteq> [] \<and> take (length spt) (x # xs) = spt)"
  proof
    assume a: "spt \<noteq> [] \<and> take (length spt) (x # xs) = spt"
    then have "length (take (length spt) (x # xs)) = length spt" by simp
    then have "length spt \<le> length (x # xs)" by (simp add: min_def split: if_splits)
    with a h show False by (simp add: occurs_at_def)
  qed
  then show ?thesis by (subst scan_spt.simps) auto
qed

lemma occurs_at_Suc: "occurs_at spt (x # xs) (Suc i) = occurs_at spt xs i"
  by (simp add: occurs_at_def)

lemma scan_spt_run:
  "(\<forall>i<length run. \<not> occurs_at spt (run @ rest) i) \<Longrightarrow>
   scan_spt spt (run @ rest) cleaned indices = scan_spt spt rest (cleaned @ run) indices"
proof (induction run arbitrary: cleaned)
  case Nil
  then show ?case by simp
next
  case (Cons x run)
  from Cons.prems have 0: "\<not> occurs_at spt (x # (run @ rest)) 0" by auto
  from Cons.prems have "\<forall>i<length run. \<not> occurs_at spt (run @ rest) i"
    using occurs_at_Suc [of spt x "run @ rest"] by auto
  then have "scan_spt spt (run @ rest) (cleaned @ [x]) indices = scan_spt spt rest ((cleaned @ [x]) @ run) indices"
    by (rule Cons.IH)
  with 0 show ?case by (simp add: scan_spt_keep)
qed

lemma occurs_at_append: "occurs_at spt (pre @ xs) (length pre + i) = occurs_at spt xs i"
  by (simp add: occurs_at_def)


lemma occurs_at_prefix:
  "occurs_at spt xs i \<Longrightarrow> occurs_at spt (xs @ ys) i"
  by (simp add: occurs_at_def)

lemma drop_spt_three:
  assumes spt: "spt \<noteq> []" and c: "C \<noteq> []"
    and only: "\<forall>i. occurs_at spt (A @ spt @ B @ spt @ C) i
                 \<longrightarrow> i = length A \<or> i = length A + length spt + length B"
  shows "drop_spt_and_get_indices spt (A @ spt @ B @ spt @ C)
           = (A @ B @ C, [length A, length A + length B])"
proof -
  have a: "\<forall>i<length A. \<not> occurs_at spt (A @ (spt @ B @ spt @ C)) i"
    using only by auto
  have b: "\<forall>i<length B. \<not> occurs_at spt (B @ (spt @ C)) i"
  proof (intro allI impI notI)
    fix i assume i: "i < length B" and o: "occurs_at spt (B @ (spt @ C)) i"
    have "occurs_at spt ((A @ spt) @ B @ spt @ C) (length (A @ spt) + i)"
      using o by (simp only: occurs_at_append)
    then have "occurs_at spt (A @ spt @ B @ spt @ C) (length A + length spt + i)" by simp
    with only have "length A + length spt + i = length A \<or> length A + length spt + i = length A + length spt + length B"
      by blast
    with i spt show False by simp
  qed
  have cc: "\<forall>i<length C. \<not> occurs_at spt (C @ []) i"
  proof (intro allI impI notI)
    fix i assume i: "i < length C" and o: "occurs_at spt (C @ []) i"
    have "occurs_at spt ((A @ spt @ B @ spt) @ C) (length (A @ spt @ B @ spt) + i)"
      using o by (simp only: occurs_at_append append_Nil2)
    then have "occurs_at spt (A @ spt @ B @ spt @ C) (length A + length spt + length B + length spt + i)"
      by (simp add: add.assoc)
    with only have "length A + length spt + length B + length spt + i = length A
        \<or> length A + length spt + length B + length spt + i = length A + length spt + length B"
      by blast
    with spt show False by simp
  qed
  have "scan_spt spt (A @ (spt @ B @ spt @ C)) [] [] = scan_spt spt (spt @ B @ spt @ C) A []"
    using scan_spt_run [OF a, of "[]" "[]"] by simp
  also have "\<dots> = scan_spt spt (B @ (spt @ C)) A [length A]"
    using spt by (simp add: scan_spt_sep)
  also have "\<dots> = scan_spt spt (spt @ C) (A @ B) [length A]"
    by (rule scan_spt_run [OF b])
  also have "\<dots> = scan_spt spt (C @ []) (A @ B) [length A, length A + length B]"
    using spt c by (simp add: scan_spt_sep)
  also have "\<dots> = scan_spt spt [] ((A @ B) @ C) [length A, length A + length B]"
    by (rule scan_spt_run [OF cc])
  finally show ?thesis
    by (simp add: drop_spt_and_get_indices_def scan_spt_Nil)
qed

lemma drop_spt_two:
  assumes spt: "spt \<noteq> []" and b: "B \<noteq> []"
    and only: "\<forall>i. occurs_at spt (A @ spt @ B) i \<longrightarrow> i = length A"
  shows "drop_spt_and_get_indices spt (A @ spt @ B) = (A @ B, [length A])"
proof -
  have a: "\<forall>i<length A. \<not> occurs_at spt (A @ (spt @ B)) i"
    using only by auto
  have bb: "\<forall>i<length B. \<not> occurs_at spt (B @ []) i"
  proof (intro allI impI notI)
    fix i assume i: "i < length B" and o: "occurs_at spt (B @ []) i"
    have "occurs_at spt ((A @ spt) @ B) (length (A @ spt) + i)"
      using o by (simp only: occurs_at_append append_Nil2)
    then have "occurs_at spt (A @ spt @ B) (length A + length spt + i)" by simp
    with only have "length A + length spt + i = length A" by blast
    with spt show False by simp
  qed
  have "scan_spt spt (A @ (spt @ B)) [] [] = scan_spt spt (spt @ B) A []"
    using scan_spt_run [OF a, of "[]" "[]"] by simp
  also have "\<dots> = scan_spt spt (B @ []) A [length A]"
    using spt b by (simp add: scan_spt_sep)
  also have "\<dots> = scan_spt spt [] (A @ B) [length A]"
    by (rule scan_spt_run [OF bb])
  finally show ?thesis
    by (simp add: drop_spt_and_get_indices_def scan_spt_Nil)
qed

lemma drop_spt_trailing:
  assumes spt: "spt \<noteq> []" and b: "B \<noteq> []"
    and only: "\<forall>i. occurs_at spt (A @ spt @ B @ spt) i
                 \<longrightarrow> i = length A \<or> i = length A + length spt + length B"
  shows "drop_spt_and_get_indices spt (A @ spt @ B @ spt) = (A @ B, [length A])"
proof -
  have a: "\<forall>i<length A. \<not> occurs_at spt (A @ (spt @ B @ spt)) i"
    using only by auto
  have bb: "\<forall>i<length B. \<not> occurs_at spt (B @ spt) i"
  proof (intro allI impI notI)
    fix i assume i: "i < length B" and o: "occurs_at spt (B @ spt) i"
    have "occurs_at spt ((A @ spt) @ B @ spt) (length (A @ spt) + i)"
      using o by (simp only: occurs_at_append)
    then have "occurs_at spt (A @ spt @ B @ spt) (length A + length spt + i)" by simp
    with only have "length A + length spt + i = length A \<or> length A + length spt + i = length A + length spt + length B"
      by blast
    with i spt show False by simp
  qed
  have "scan_spt spt (A @ (spt @ B @ spt)) [] [] = scan_spt spt (spt @ B @ spt) A []"
    using scan_spt_run [OF a, of "[]" "[]"] by simp
  also have "\<dots> = scan_spt spt (B @ spt) A [length A]"
    using spt by (simp add: scan_spt_sep)
  also have "\<dots> = scan_spt spt (spt @ []) (A @ B) [length A]"
    using scan_spt_run [OF bb] by simp
  also have "\<dots> = scan_spt spt [] (A @ B) [length A]"
    using scan_spt_sep [OF spt, of "[]" "A @ B" "[length A]"] by simp
  finally show ?thesis
    by (simp add: drop_spt_and_get_indices_def scan_spt_Nil)
qed

text \<open>
  C8, as amended. For a separator SPT of length at least one and token runs \<open>A\<close>,
  \<open>B\<close>, \<open>C\<close> such that SPT occurs in the prompt at the two inserted positions and
  nowhere else: when \<open>C\<close> is not empty, \<open>[A, SPT, B, SPT, C]\<close> yields the cleaned
  prompt \<open>[A, B, C]\<close> and the boundary list \<open>[|A|, |A| + |B|]\<close>; when \<open>B\<close> is not
  empty, the prompt with a trailing separator \<open>[A, SPT, B, SPT]\<close> yields \<open>[A, B]\<close> and
  \<open>[|A|]\<close>, exactly what \<open>[A, SPT, B]\<close> yields.
\<close>

theorem drop_spt_segments:
  assumes "spt \<noteq> []"
  shows "(C \<noteq> [] \<and> (\<forall>i. occurs_at spt (A @ spt @ B @ spt @ C) i
                          \<longrightarrow> i = length A \<or> i = length A + length spt + length B)
          \<longrightarrow> drop_spt_and_get_indices spt (A @ spt @ B @ spt @ C)
                = (A @ B @ C, [length A, length A + length B]))
       \<and> (B \<noteq> [] \<and> (\<forall>i. occurs_at spt (A @ spt @ B @ spt) i
                          \<longrightarrow> i = length A \<or> i = length A + length spt + length B)
          \<longrightarrow> drop_spt_and_get_indices spt (A @ spt @ B @ spt) = (A @ B, [length A])
            \<and> drop_spt_and_get_indices spt (A @ spt @ B @ spt)
                = drop_spt_and_get_indices spt (A @ spt @ B))"
proof (intro conjI impI)
  assume "C \<noteq> [] \<and> (\<forall>i. occurs_at spt (A @ spt @ B @ spt @ C) i
                          \<longrightarrow> i = length A \<or> i = length A + length spt + length B)"
  then show "drop_spt_and_get_indices spt (A @ spt @ B @ spt @ C)
                = (A @ B @ C, [length A, length A + length B])"
    using drop_spt_three [OF assms] by blast
next
  assume h: "B \<noteq> [] \<and> (\<forall>i. occurs_at spt (A @ spt @ B @ spt) i
                          \<longrightarrow> i = length A \<or> i = length A + length spt + length B)"
  then show t: "drop_spt_and_get_indices spt (A @ spt @ B @ spt) = (A @ B, [length A])"
    using drop_spt_trailing [OF assms] by blast
  have "\<forall>i. occurs_at spt (A @ spt @ B) i \<longrightarrow> i = length A"
  proof (intro allI impI)
    fix i assume o: "occurs_at spt (A @ spt @ B) i"
    then have "occurs_at spt ((A @ spt @ B) @ spt) i" by (rule occurs_at_prefix)
    with h have "i = length A \<or> i = length A + length spt + length B" by simp
    moreover from o assms have "i < length A + length spt + length B"
      by (cases spt) (auto simp: occurs_at_def)
    ultimately show "i = length A" by simp
  qed
  with h have "drop_spt_and_get_indices spt (A @ spt @ B) = (A @ B, [length A])"
    using drop_spt_two [OF assms] by blast
  with t show "drop_spt_and_get_indices spt (A @ spt @ B @ spt)
                = drop_spt_and_get_indices spt (A @ spt @ B)" by simp
qed

theorem drop_spt_segments_witness:
  "[7, 8 :: int] \<noteq> [] \<and> [3 :: int] \<noteq> [] \<and> [2 :: int] \<noteq> []
   \<and> drop_spt_and_get_indices [7, 8] ([1] @ [7, 8] @ [2] @ [7, 8] @ [3]) = ([1, 2, 3], [1, 2])
   \<and> drop_spt_and_get_indices [7, 8] ([1] @ [7, 8] @ [2] @ [7, 8]) = ([1, 2], [1])
   \<and> drop_spt_and_get_indices [7, 8] ([1] @ [7, 8] @ [2] @ [7, 8])
       = drop_spt_and_get_indices [7, 8] ([1] @ [7, 8] @ [2])"
proof -
  have o1: "\<forall>i. occurs_at [7, 8] ([1] @ [7, 8] @ [2] @ [7, 8] @ [3]) i
            \<longrightarrow> i = length [1 :: int] \<or> i = length [1 :: int] + length [7, 8 :: int] + length [2 :: int]"
  proof (intro allI impI)
    fix i assume o: "occurs_at [7, 8] ([1] @ [7, 8] @ [2] @ [7, 8] @ [3]) i"
    then have "i < 6" by (simp add: occurs_at_def)
    then consider "i = 0" | "i = 1" | "i = 2" | "i = 3" | "i = 4" | "i = 5" by linarith
    then show "i = length [1 :: int] \<or> i = length [1 :: int] + length [7, 8 :: int] + length [2 :: int]"
      using o by cases (simp_all add: occurs_at_def)
  qed
  have o2: "\<forall>i. occurs_at [7, 8] ([1] @ [7, 8] @ [2] @ [7, 8]) i
            \<longrightarrow> i = length [1 :: int] \<or> i = length [1 :: int] + length [7, 8 :: int] + length [2 :: int]"
  proof (intro allI impI)
    fix i assume o: "occurs_at [7, 8] ([1] @ [7, 8] @ [2] @ [7, 8]) i"
    then have "i < 5" by (simp add: occurs_at_def)
    then consider "i = 0" | "i = 1" | "i = 2" | "i = 3" | "i = 4" by linarith
    then show "i = length [1 :: int] \<or> i = length [1 :: int] + length [7, 8 :: int] + length [2 :: int]"
      using o by cases (simp_all add: occurs_at_def)
  qed
  have n: "[7, 8 :: int] \<noteq> []" by simp
  have c: "[3 :: int] \<noteq> []" and b: "[2 :: int] \<noteq> []" by simp_all
  from drop_spt_segments [OF n, of "[3]" "[1]" "[2]"] n c b o1 o2
  have "drop_spt_and_get_indices [7, 8] ([1] @ [7, 8] @ [2] @ [7, 8] @ [3])
          = ([1] @ [2] @ [3], [length [1 :: int], length [1 :: int] + length [2 :: int]])
      \<and> drop_spt_and_get_indices [7, 8] ([1] @ [7, 8] @ [2] @ [7, 8]) = ([1] @ [2], [length [1 :: int]])
      \<and> drop_spt_and_get_indices [7, 8] ([1] @ [7, 8] @ [2] @ [7, 8])
          = drop_spt_and_get_indices [7, 8] ([1] @ [7, 8] @ [2])"
    by blast
  then have p1: "drop_spt_and_get_indices [7, 8] ([1] @ [7, 8] @ [2] @ [7, 8] @ [3]) = ([1, 2, 3], [1, 2])"
    and p2: "drop_spt_and_get_indices [7, 8] ([1] @ [7, 8] @ [2] @ [7, 8]) = ([1, 2], [1])"
    and p3: "drop_spt_and_get_indices [7, 8] ([1] @ [7, 8] @ [2] @ [7, 8])
          = drop_spt_and_get_indices [7, 8] ([1] @ [7, 8] @ [2])"
    by auto
  from n c b p1 p2 p3 show ?thesis by blast
qed

text \<open>
  The claim as stated fails for runs that contain no separator occurrence themselves
  and form one with a neighbouring separator: with the separator \<open>[7, 7]\<close> and
  \<open>A = [7]\<close>, \<open>B = [1]\<close>, \<open>C = [2]\<close>, each shorter than the separator, the boundary
  list is not \<open>[|A|, |A| + |B|]\<close>.
\<close>

theorem drop_spt_overlap_counterexample:
  "length [7 :: int] < length [7, 7 :: int] \<and> length [1 :: int] < length [7, 7 :: int]
   \<and> length [2 :: int] < length [7, 7 :: int]
   \<and> drop_spt_and_get_indices [7, 7] ([7] @ [7, 7] @ [1] @ [7, 7] @ [2])
       \<noteq> ([7] @ [1] @ [2], [length [7 :: int], length [7 :: int] + length [1 :: int]])"
proof -
  have "drop_spt_and_get_indices [7, 7] ([7] @ [7, 7] @ [1] @ [7, 7] @ [2]) = ([7, 1, 2], [0, 2])"
    by code_simp
  then show ?thesis by simp
qed


end
